theory Spec2Isabelle
  imports Main "HOL-Library.Multiset" "HOL-Library.Sublist"
begin

section \<open>The outside world of the notebooks\<close>

text \<open>
  The notebooks are straight-line scripts around three kinds of effect: a request to a
  service (the SageMaker control plane through \<^verbatim>\<open>sm_client\<close>, or the live endpoint through
  \<^verbatim>\<open>predictor.predict\<close>), \<^verbatim>\<open>time.sleep\<close>, and \<^verbatim>\<open>print\<close>. A cell is modelled as a function
  that returns its outcome (an exception raised by the client library, or a value), the number of
  requests sent so far, and the list of effects in the order in which they happened.

  A service is an oracle \<open>srv n p\<close>: the answer to request \<open>p\<close> when \<open>n\<close> requests have
  been sent before it. Nothing is assumed about the oracle, so the answer to the same request
  may change from one call to the next (a transient network error, an endpoint status that
  moves from \<^verbatim>\<open>Creating\<close> to \<^verbatim>\<open>InService\<close>).
\<close>

datatype error = ClientError string | KeyError string

type_synonym ('p, 'r) service = "nat \<Rightarrow> 'p \<Rightarrow> error + 'r"

datatype 'p event =
    Call 'p
  | Sleep nat
  | Print string
  | Print_sample nat 'p "string option"

text \<open>
  \<open>Sleep\<close> carries milliseconds. \<open>Print_sample index sample response\<close> is the line
  \<^verbatim>\<open>'Sample {0} >> Input: {1}: >> Prediction: {2}'.format(index, sample, response)\<close>, kept as
  its three arguments; \<open>None\<close> is Python's \<^verbatim>\<open>None\<close>.
\<close>

type_synonym ('p, 'a) result = "(error + 'a) \<times> nat \<times> 'p event list"

definition outcome :: "('p, 'a) result \<Rightarrow> error + 'a" where
  "outcome r = fst r"

definition sent :: "('p, 'a) result \<Rightarrow> nat" where
  "sent r = fst (snd r)"

definition trace :: "('p, 'a) result \<Rightarrow> 'p event list" where
  "trace r = snd (snd r)"

fun calls :: "'p event list \<Rightarrow> 'p list" where
  "calls [] = []"
| "calls (Call p # evs) = p # calls evs"
| "calls (ev # evs) = calls evs"

fun printed :: "'p event list \<Rightarrow> (nat \<times> 'p \<times> string option) list" where
  "printed [] = []"
| "printed (Print_sample i s r # evs) = (i, s, r) # printed evs"
| "printed (ev # evs) = printed evs"

fun sleeps :: "'p event list \<Rightarrow> nat list" where
  "sleeps [] = []"
| "sleeps (Sleep ms # evs) = ms # sleeps evs"
| "sleeps (ev # evs) = sleeps evs"

section \<open>Inference driver\<close>

subsection \<open>The replay loop of the iris notebook\<close>

text \<open>
  Both replay cells of the iris notebook run the same loop:
  \<^verbatim>\<open>
  for index, sample in enumerate(samples[0:batch_size]):
      if(len(sample) > 0):
          response = predictor.predict(sample).decode('utf-8')
          print('Sample {0} >> Input: {1}: >> Prediction: {2}'.format(index, sample, response))
          time.sleep(0.5)
  \<close>
  The oracle \<open>predictor\<close> stands for \<^verbatim>\<open>predictor.predict(sample).decode('utf-8')\<close>: the decoded
  text, or the exception that the invocation or the decoding raised. A sample is a list (of
  field values in the baseline cell, of characters in the drift cell), and \<^verbatim>\<open>len\<close> is its
  length.
\<close>

fun inference_loop ::
  "('a list, string) service \<Rightarrow> nat \<Rightarrow> 'a list list \<Rightarrow> nat \<Rightarrow> ('a list, unit) result"
where
  "inference_loop predictor index [] n = (Inr (), n, [])"
| "inference_loop predictor index (sample # rest) n =
     (if length sample > 0 then
        (case predictor n sample of
           Inl e \<Rightarrow> (Inl e, Suc n, [Call sample])
         | Inr response \<Rightarrow>
             (case inference_loop predictor (Suc index) rest (Suc n) of
                (r, n', evs) \<Rightarrow>
                  (r, n', Call sample # Print_sample index sample (Some response)
                            # Sleep 500 # evs)))
      else inference_loop predictor (Suc index) rest n)"

definition batch_size :: nat where
  "batch_size = 15"

text \<open>
  The baseline cell. \<open>samples\<close> is \<^verbatim>\<open>iris_df.values.tolist()\<close>; \<open>shuffle\<close> is what
  \<^verbatim>\<open>random.shuffle\<close> does to the list in this run.
  \<^verbatim>\<open>
  samples = samples[1:]
  random.shuffle(samples)
  for index, sample in enumerate(samples[0:batch_size]): ...
  print('Completed!')
  \<close>
\<close>

definition baseline_inference ::
  "('a list list \<Rightarrow> 'a list list) \<Rightarrow> ('a list, string) service \<Rightarrow> 'a list list \<Rightarrow> nat
     \<Rightarrow> ('a list, unit) result"
where
  "baseline_inference shuffle predictor samples n =
     (let samples = drop 1 samples;
          samples = shuffle samples
      in case inference_loop predictor 0 (take batch_size samples) n of
           (Inl e, n', evs) \<Rightarrow> (Inl e, n', evs)
         | (Inr u, n', evs) \<Rightarrow> (Inr (), n', evs @ [Print ''Completed!'']))"

subsection \<open>The drift cell of the iris notebook\<close>

text \<open>
  \<^verbatim>\<open>",".join(item)\<close>: the items with the separator between neighbours.
\<close>

fun join :: "string \<Rightarrow> string list \<Rightarrow> string" where
  "join sep [] = []"
| "join sep [x] = x"
| "join sep (x # y # ys) = x @ sep @ join sep (y # ys)"

text \<open>
  \<^verbatim>\<open>astype(str)\<close> on the integer array: the decimal text of each value.
\<close>

fun str_nat :: "nat \<Rightarrow> string" where
  "str_nat n =
     (if n < 10 then [''0123456789'' ! n]
      else str_nat (n div 10) @ [''0123456789'' ! (n mod 10)])"

declare str_nat.simps [simp del]

definition str_int :: "int \<Rightarrow> string" where
  "str_int i = (if i < 0 then CHR ''-'' # str_nat (nat (- i)) else str_nat (nat i))"

text \<open>
  \<open>sample_drift_data\<close> is the integer array
  \<^verbatim>\<open>np.random.uniform(low=-5, high=5, size=(batch_size, 4)).astype('i')\<close>, row by row.
  \<^verbatim>\<open>
  sample_drift_data = [",".join(item) for item in sample_drift_data.astype(str)]
  for index, sample in enumerate(sample_drift_data): ...
  print('Completed!')
  \<close>
\<close>

definition drift_inference ::
  "(string, string) service \<Rightarrow> int list list \<Rightarrow> nat \<Rightarrow> (string, unit) result"
where
  "drift_inference predictor sample_drift_data n =
     (let sample_drift_data = map (\<lambda>item. join '','' item) (map (map str_int) sample_drift_data)
      in case inference_loop predictor 0 sample_drift_data n of
           (Inl e, n', evs) \<Rightarrow> (Inl e, n', evs)
         | (Inr u, n', evs) \<Rightarrow> (Inr (), n', evs @ [Print ''Completed!'']))"

subsection \<open>The serializer of the predictor\<close>

text \<open>
  Modelled from the spec: the SDK's \<^verbatim>\<open>CSVSerializer\<close>, which the notebook only constructs
  (\<^verbatim>\<open>Predictor(endpoint_name=endpoint_name, sagemaker_session=None, serializer=CSVSerializer())\<close>)
  and whose code is not part of the sources. The spec has the inference driver "serialize to a
  comma-separated line" a row that is an "ordered sequence of field values", and the payload
  of \<^verbatim>\<open>[5.0,2.3,3.3,1.0]\<close> be \<^verbatim>\<open>"5.0,2.3,3.3,1.0"\<close> "with no trailing delimiter". The text of
  a field value (Python prints the float \<^verbatim>\<open>5.0\<close> as \<^verbatim>\<open>5.0\<close>) is the parameter \<open>str\<close>.
\<close>

definition CSVSerializer :: "('a \<Rightarrow> string) \<Rightarrow> 'a list \<Rightarrow> string" where
  "CSVSerializer str row = join '','' (map str row)"

text \<open>
  The payloads that a predictor with this serializer sends for the samples it is given, in
  the order of the invocations.
\<close>

definition payloads :: "('a \<Rightarrow> string) \<Rightarrow> 'a list event list \<Rightarrow> string list" where
  "payloads str evs = map (CSVSerializer str) (calls evs)"

subsection \<open>The replay loops of the Prosper notebooks\<close>

text \<open>
  \<^verbatim>\<open>
  def predict(sample, delay=0.5):
      if(len(sample) > 0):
          response = predictor.predict(data=sample)
          response = response.decode('utf-8')
          time.sleep(delay)
          return response
  \<close>
  A call that skips the body returns \<^verbatim>\<open>None\<close>. \<open>delay\<close> is in milliseconds.
\<close>

definition predict ::
  "('a list, string) service \<Rightarrow> nat \<Rightarrow> 'a list \<Rightarrow> nat \<Rightarrow> ('a list, string option) result"
where
  "predict predictor delay sample n =
     (if length sample > 0 then
        (case predictor n sample of
           Inl e \<Rightarrow> (Inl e, Suc n, [Call sample])
         | Inr response \<Rightarrow> (Inr (Some response), Suc n, [Call sample, Sleep delay]))
      else (Inr None, n, []))"

text \<open>
  \<^verbatim>\<open>
  for index, sample in enumerate(samples):
      response = predict(sample)
      print('Sample {0} >> Input: {1}: >> Prediction: {2}'.format(index, sample, response))
  \<close>
\<close>

fun drift_loop ::
  "('a list, string) service \<Rightarrow> nat \<Rightarrow> 'a list list \<Rightarrow> nat \<Rightarrow> ('a list, unit) result"
where
  "drift_loop predictor index [] n = (Inr (), n, [])"
| "drift_loop predictor index (sample # rest) n =
     (case predict predictor 500 sample n of
        (Inl e, n', evs) \<Rightarrow> (Inl e, n', evs)
      | (Inr response, n', evs) \<Rightarrow>
          (case drift_loop predictor (Suc index) rest n' of
             (r, n'', evs') \<Rightarrow> (r, n'', evs @ Print_sample index sample response # evs')))"

text \<open>
  The earlier version of the notebook has the helper without the delay and sleeps in the loop:
  \<^verbatim>\<open>
  def predict(sample):
      if(len(sample) > 0):
          return predictor.predict(data=sample).decode('utf-8')

  for index, sample in enumerate(samples[0:10]):
      response = predict(sample)
      time.sleep(0.5)
      print('Sample {0} >> Input: {1}: >> Prediction: {2}'.format(index, sample, response))
  \<close>
\<close>

definition predict_undelayed ::
  "('a list, string) service \<Rightarrow> 'a list \<Rightarrow> nat \<Rightarrow> ('a list, string option) result"
where
  "predict_undelayed predictor sample n =
     (if length sample > 0 then
        (case predictor n sample of
           Inl e \<Rightarrow> (Inl e, Suc n, [Call sample])
         | Inr response \<Rightarrow> (Inr (Some response), Suc n, [Call sample]))
      else (Inr None, n, []))"

fun violation_loop ::
  "('a list, string) service \<Rightarrow> nat \<Rightarrow> 'a list list \<Rightarrow> nat \<Rightarrow> ('a list, unit) result"
where
  "violation_loop predictor index [] n = (Inr (), n, [])"
| "violation_loop predictor index (sample # rest) n =
     (case predict_undelayed predictor sample n of
        (Inl e, n', evs) \<Rightarrow> (Inl e, n', evs)
      | (Inr response, n', evs) \<Rightarrow>
          (case violation_loop predictor (Suc index) rest n' of
             (r, n'', evs') \<Rightarrow>
               (r, n'', evs @ Sleep 500 # Print_sample index sample response # evs')))"

text \<open>
  The three cells: \<^verbatim>\<open>samples[0:10]\<close>, \<^verbatim>\<open>samples[10:20]\<close> and \<^verbatim>\<open>samples[20:]\<close>.
\<close>

definition data_type_check ::
  "('a list, string) service \<Rightarrow> 'a list list \<Rightarrow> nat \<Rightarrow> ('a list, unit) result"
where
  "data_type_check predictor samples n = violation_loop predictor 0 (take 10 samples) n"

definition completeness_check ::
  "('a list, string) service \<Rightarrow> 'a list list \<Rightarrow> nat \<Rightarrow> ('a list, unit) result"
where
  "completeness_check predictor samples n =
     violation_loop predictor 0 (take 10 (drop 10 samples)) n"

definition baseline_drift_check ::
  "('a list, string) service \<Rightarrow> 'a list list \<Rightarrow> nat \<Rightarrow> ('a list, unit) result"
where
  "baseline_drift_check predictor samples n = violation_loop predictor 0 (drop 20 samples) n"

section \<open>Control-plane cells\<close>

text \<open>
  The operations of \<^verbatim>\<open>sm_client\<close> (and of the SDK's \<^verbatim>\<open>DefaultModelMonitor\<close>) that the
  notebooks call, with the names they are given. A response is the dictionary the client
  returns; the notebooks read string entries only.
\<close>

datatype request =
    create_model string string string
  | create_endpoint_config string string string
  | create_endpoint string string
  | describe_endpoint string
  | describe_processing_job string
  | suggest_baseline string
  | wait_for_job string
  | baseline_statistics
  | suggested_constraints
  | create_monitoring_schedule string string
  | describe_schedule
  | stop_monitoring_schedule string
  | delete_monitoring_schedule string
  | delete_endpoint string
  | delete_endpoint_config string
  | delete_model string
  | list_monitoring_schedules string
  | list_endpoints string
  | list_endpoint_configs string
  | list_models string

type_synonym response = "string \<rightharpoonup> string"

text \<open>
  The operations that create, stop or delete a resource, as opposed to those that only read.
\<close>

fun changes_resources :: "request \<Rightarrow> bool" where
  "changes_resources (create_model _ _ _) = True"
| "changes_resources (create_endpoint_config _ _ _) = True"
| "changes_resources (create_endpoint _ _) = True"
| "changes_resources (suggest_baseline _) = True"
| "changes_resources (create_monitoring_schedule _ _) = True"
| "changes_resources (stop_monitoring_schedule _) = True"
| "changes_resources (delete_monitoring_schedule _) = True"
| "changes_resources (delete_endpoint _) = True"
| "changes_resources (delete_endpoint_config _) = True"
| "changes_resources (delete_model _) = True"
| "changes_resources _ = False"

type_synonym 'a cell = "nat \<Rightarrow> (request, 'a) result"

text \<open>
  Statements of a cell: a request, \<^verbatim>\<open>response[key]\<close> (a missing key raises
  \<^verbatim>\<open>KeyError\<close>), \<^verbatim>\<open>time.sleep\<close>, \<^verbatim>\<open>print\<close>; and their sequencing, which stops at the first
  exception, as a notebook run does.
\<close>

definition send :: "(request, response) service \<Rightarrow> request \<Rightarrow> response cell" where
  "send srv req n = (srv n req, Suc n, [Call req])"

definition lookup :: "response \<Rightarrow> string \<Rightarrow> string cell" where
  "lookup response key n =
     (case response key of
        None \<Rightarrow> (Inl (KeyError key), n, [])
      | Some v \<Rightarrow> (Inr v, n, []))"

definition sleep :: "nat \<Rightarrow> unit cell" where
  "sleep ms n = (Inr (), n, [Sleep ms])"

definition print :: "string \<Rightarrow> unit cell" where
  "print text n = (Inr (), n, [Print text])"

definition return :: "'a \<Rightarrow> 'a cell" where
  "return x n = (Inr x, n, [])"

definition seq :: "'a cell \<Rightarrow> ('a \<Rightarrow> 'b cell) \<Rightarrow> 'b cell" where
  "seq c f n =
     (case c n of
        (Inl e, n', evs) \<Rightarrow> (Inl e, n', evs)
      | (Inr x, n', evs) \<Rightarrow> (case f x n' of (r, n'', evs') \<Rightarrow> (r, n'', evs @ evs')))"

subsection \<open>Globals of the Prosper notebook\<close>

definition MODEL_PACKAGE_ARN :: string where
  "MODEL_PACKAGE_ARN = ''arn:aws:sagemaker:us-east-1:865070037744:model-package/planning-to-buy-house-basic-28fcb3ca751705854a7171b255d8ef43''"

definition MODEL_NAME :: string where
  "MODEL_NAME = ''third-party-model''"

definition MODEL_ENDPOINT :: string where
  "MODEL_ENDPOINT = ''third-party-model-endpoint''"

definition MODEL_ENDPOINT_CONFIG :: string where
  "MODEL_ENDPOINT_CONFIG = ''third-party-model-endpoint-config''"

definition MODEL_MONITOR_SCHEDULE_NAME :: string where
  "MODEL_MONITOR_SCHEDULE_NAME = ''third-party-model-data-quality-schedule''"

subsection \<open>Resource provisioner\<close>

text \<open>
  Cells 2.1 to 2.3, each followed by the cell that prints the ARN read from the response:
  \<^verbatim>\<open>
  response = sm_client.create_model(ModelName = MODEL_NAME, PrimaryContainer = ..., ...)
  print('>> The ARN of the model is: {}'.format(response['ModelArn']))
  response = sm_client.create_endpoint_config(EndpointConfigName = MODEL_ENDPOINT_CONFIG, ...)
  print('>> The ARN of the endpoint config is: {}'.format(response['EndpointConfigArn']))
  response = sm_client.create_endpoint(EndpointName = MODEL_ENDPOINT,
                                       EndpointConfigName = MODEL_ENDPOINT_CONFIG)
  print('>> The ARN of the endpoint is: {}'.format(response['EndpointArn']))
  \<close>
  \<open>role\<close> is the result of \<^verbatim>\<open>get_execution_role()\<close> and \<open>capture_uri\<close> is
  \<^verbatim>\<open>S3_DATA_CAPTURE_URI\<close>, which depends on the session's bucket. The value of the run is the
  three identifiers read.
\<close>

definition provision ::
  "(request, response) service \<Rightarrow> string \<Rightarrow> string \<Rightarrow> (string \<times> string \<times> string) cell"
where
  "provision srv role capture_uri =
     seq (send srv (create_model MODEL_NAME MODEL_PACKAGE_ARN role)) (\<lambda>response.
     seq (lookup response ''ModelArn'') (\<lambda>model_arn.
     seq (print (''>> The ARN of the model is: '' @ model_arn)) (\<lambda>_.
     seq (send srv (create_endpoint_config MODEL_ENDPOINT_CONFIG MODEL_NAME capture_uri))
       (\<lambda>response.
     seq (lookup response ''EndpointConfigArn'') (\<lambda>endpoint_config_arn.
     seq (print (''>> The ARN of the endpoint config is: '' @ endpoint_config_arn)) (\<lambda>_.
     seq (send srv (create_endpoint MODEL_ENDPOINT MODEL_ENDPOINT_CONFIG)) (\<lambda>response.
     seq (lookup response ''EndpointArn'') (\<lambda>endpoint_arn.
     seq (print (''>> The ARN of the endpoint is: '' @ endpoint_arn)) (\<lambda>_.
     return (model_arn, endpoint_config_arn, endpoint_arn))))))))))"

subsection \<open>Teardown\<close>

text \<open>
  The five cleanup cells, run one after the other:
  \<^verbatim>\<open>
  print('Stopping monitoring schedule...')
  sm_client.stop_monitoring_schedule(MonitoringScheduleName=MODEL_MONITOR_SCHEDULE_NAME)
  time.sleep(30) # allow time for processing
  print('Listing monitoring schedules')
  sm_client.list_monitoring_schedules(EndpointName=MODEL_ENDPOINT)
  \<close>
  and likewise for \<^verbatim>\<open>delete_monitoring_schedule\<close>, \<^verbatim>\<open>delete_endpoint\<close>,
  \<^verbatim>\<open>delete_endpoint_config\<close> and \<^verbatim>\<open>delete_model\<close>. The listing that ends a cell is the
  cell's displayed value; nothing reads it. (The Resource Cleanup cell of the iris notebook
  holds the same five steps as \<^verbatim>\<open>aws sagemaker\<close> command lines with the same waits, every
  line commented out.)
\<close>

definition cleanup_step ::
  "(request, response) service \<Rightarrow> string \<Rightarrow> request \<Rightarrow> string \<Rightarrow> request \<Rightarrow> response cell"
where
  "cleanup_step srv doing req listing list_req =
     seq (print doing) (\<lambda>_.
     seq (send srv req) (\<lambda>_.
     seq (sleep 30000) (\<lambda>_.
     seq (print listing) (\<lambda>_.
     send srv list_req))))"

definition teardown :: "(request, response) service \<Rightarrow> unit cell" where
  "teardown srv =
     seq (cleanup_step srv ''Stopping monitoring schedule...''
            (stop_monitoring_schedule MODEL_MONITOR_SCHEDULE_NAME)
            ''Listing monitoring schedules'' (list_monitoring_schedules MODEL_ENDPOINT)) (\<lambda>_.
     seq (cleanup_step srv ''Deleting monitoring schedule...''
            (delete_monitoring_schedule MODEL_MONITOR_SCHEDULE_NAME)
            ''Listing monitoring schedules'' (list_monitoring_schedules MODEL_ENDPOINT)) (\<lambda>_.
     seq (cleanup_step srv ''Deleting model endpoint...''
            (delete_endpoint MODEL_ENDPOINT)
            ''Listing model endpoints'' (list_endpoints MODEL_ENDPOINT)) (\<lambda>_.
     seq (cleanup_step srv ''Deleting model endpoint config...''
            (delete_endpoint_config MODEL_ENDPOINT_CONFIG)
            ''Listing model endpoint configs'' (list_endpoint_configs MODEL_ENDPOINT_CONFIG)) (\<lambda>_.
     seq (cleanup_step srv ''Deleting model...''
            (delete_model MODEL_NAME)
            ''Listing models'' (list_models MODEL_NAME)) (\<lambda>_.
     return ())))))"

subsection \<open>Status poller\<close>

text \<open>
  The two polling cells have the same shape; for the endpoint:
  \<^verbatim>\<open>
  response = sm_client.describe_endpoint(EndpointName=MODEL_ENDPOINT)
  model_endpoint_status = response['EndpointStatus']
  while model_endpoint_status == 'Creating':
      time.sleep(45)
      response = sm_client.describe_endpoint(EndpointName=MODEL_ENDPOINT)
      model_endpoint_status = response['EndpointStatus']
      print('>> The current status of model endpoint "{0}" is {1}'.format(MODEL_ENDPOINT,
                                                                          model_endpoint_status))
  \<close>
  The loop has no bound, so the model is a partial function: \<open>None\<close> is a run that never
  leaves the loop. The value of a run that ends is the last status read.
\<close>

definition read_status :: "(request, response) service \<Rightarrow> request \<Rightarrow> string \<Rightarrow> string cell" where
  "read_status srv req key = seq (send srv req) (\<lambda>response. lookup response key)"

definition quoted :: "string \<Rightarrow> string" where
  "quoted s = CHR 0x22 # s @ [CHR 0x22]"

partial_function (option) poll_while ::
  "(request, response) service \<Rightarrow> request \<Rightarrow> string \<Rightarrow> string \<Rightarrow> (string \<Rightarrow> string)
     \<Rightarrow> string \<Rightarrow> nat \<Rightarrow> (request, string) result option"
where
  "poll_while srv req key busy message status n =
     (if status = busy then
        (case seq (sleep 45000) (\<lambda>_.
              seq (read_status srv req key) (\<lambda>status.
              seq (print (message status)) (\<lambda>_.
              return status))) n of
           (Inl e, n', evs) \<Rightarrow> Some (Inl e, n', evs)
         | (Inr status, n', evs) \<Rightarrow>
             Option.bind (poll_while srv req key busy message status n')
               (\<lambda>(r, n'', evs'). Some (r, n'', evs @ evs')))
      else Some (Inr status, n, []))"

definition poll_status ::
  "(request, response) service \<Rightarrow> request \<Rightarrow> string \<Rightarrow> string \<Rightarrow> (string \<Rightarrow> string)
     \<Rightarrow> nat \<Rightarrow> (request, string) result option"
where
  "poll_status srv req key busy message n =
     (case read_status srv req key n of
        (Inl e, n', evs) \<Rightarrow> Some (Inl e, n', evs)
      | (Inr status, n', evs) \<Rightarrow>
          Option.bind (poll_while srv req key busy message status n')
            (\<lambda>(r, n'', evs'). Some (r, n'', evs @ evs')))"

definition wait_endpoint :: "(request, response) service \<Rightarrow> nat \<Rightarrow> (request, string) result option"
where
  "wait_endpoint srv =
     poll_status srv (describe_endpoint MODEL_ENDPOINT) ''EndpointStatus'' ''Creating''
       (\<lambda>status. ''>> The current status of model endpoint '' @ quoted MODEL_ENDPOINT
                    @ '' is '' @ status)"

definition wait_processing_job ::
  "(request, response) service \<Rightarrow> string \<Rightarrow> nat \<Rightarrow> (request, string) result option"
where
  "wait_processing_job srv job_name =
     poll_status srv (describe_processing_job job_name) ''ProcessingJobStatus'' ''InProgress''
       (\<lambda>status. ''>> The current status of processing_job '' @ quoted job_name
                    @ '' is '' @ status)"

subsection \<open>The cells that follow a poll\<close>

text \<open>
  A notebook runs its cells in order; a cell that raises stops the run. The cell after a
  polling cell does not read the status variable: \<^verbatim>\<open>model_endpoint_status\<close> and
  \<^verbatim>\<open>processing_job_status\<close> occur in their polling cells only.
\<close>

definition then_cell ::
  "(nat \<Rightarrow> (request, 'a) result option) \<Rightarrow> 'b cell \<Rightarrow> nat \<Rightarrow> (request, 'b) result option"
where
  "then_cell polling next n =
     (case polling n of
        None \<Rightarrow> None
      | Some (Inl e, n', evs) \<Rightarrow> Some (Inl e, n', evs)
      | Some (Inr status, n', evs) \<Rightarrow>
          (case next n' of (r, n'', evs') \<Rightarrow> Some (r, n'', evs @ evs')))"

text \<open>
  After the endpoint poll, the baselining cell; \<open>job_name\<close> is the name with its timestamp.
  \<^verbatim>\<open>
  job = default_model_monitor.suggest_baseline(job_name = job_name, ..., wait=True, logs=False)
  job.wait(logs=False)
  \<close>
\<close>

definition baselining_cell :: "(request, response) service \<Rightarrow> string \<Rightarrow> unit cell" where
  "baselining_cell srv job_name =
     seq (send srv (suggest_baseline job_name)) (\<lambda>job.
     seq (send srv (wait_for_job job_name)) (\<lambda>_.
     return ()))"

definition endpoint_then_baseline ::
  "(request, response) service \<Rightarrow> string \<Rightarrow> nat \<Rightarrow> (request, unit) result option"
where
  "endpoint_then_baseline srv job_name = then_cell (wait_endpoint srv) (baselining_cell srv job_name)"

text \<open>
  After the processing-job poll, the cell that creates the monitoring schedule:
  \<^verbatim>\<open>
  default_model_monitor.create_monitoring_schedule(
      monitor_schedule_name = monitor_schedule_name,
      endpoint_input = MODEL_ENDPOINT, ...,
      statistics = default_model_monitor.baseline_statistics(),
      constraints = default_model_monitor.suggested_constraints(), ...)
  time.sleep(30)
  monitor_schedule_details = default_model_monitor.describe_schedule()['MonitoringScheduleStatus']
  print('>> The current status of monitoring schedule "{0}" is {1}'.format(...))
  \<close>
\<close>

definition monitoring_schedule_cell ::
  "(request, response) service \<Rightarrow> string \<Rightarrow> string \<Rightarrow> unit cell"
where
  "monitoring_schedule_cell srv monitor_schedule_name endpoint =
     seq (send srv baseline_statistics) (\<lambda>statistics.
     seq (send srv suggested_constraints) (\<lambda>constraints.
     seq (send srv (create_monitoring_schedule monitor_schedule_name endpoint)) (\<lambda>_.
     seq (sleep 30000) (\<lambda>_.
     seq (send srv describe_schedule) (\<lambda>response.
     seq (lookup response ''MonitoringScheduleStatus'') (\<lambda>monitor_schedule_details.
     print (''>> The current status of monitoring schedule '' @ quoted monitor_schedule_name
              @ '' is '' @ monitor_schedule_details)))))))"

definition baseline_then_schedule ::
  "(request, response) service \<Rightarrow> string \<Rightarrow> string \<Rightarrow> string \<Rightarrow> nat
     \<Rightarrow> (request, unit) result option"
where
  "baseline_then_schedule srv job_name monitor_schedule_name endpoint =
     then_cell (wait_processing_job srv job_name)
       (monitoring_schedule_cell srv monitor_schedule_name endpoint)"

subsection \<open>What holds of a poll that returns\<close>

text \<open>
  The invariant of the polling loop, for the fixpoint induction: a run that starts with
  \<open>status\<close> at request number \<open>n\<close> and returns \<open>s\<close> at request number \<open>n'\<close> has read
  the in-progress status at every request before the last one, and \<open>s\<close> at the last one.
\<close>

definition poll_inv ::
  "(request, response) service \<Rightarrow> request \<Rightarrow> string \<Rightarrow> string \<Rightarrow> (string \<Rightarrow> string)
     \<Rightarrow> string \<Rightarrow> nat \<Rightarrow> (request, string) result \<Rightarrow> bool"
where
  "poll_inv srv req key busy message status n y =
     (\<forall>s n' evs. y = (Inr s, n', evs) \<longrightarrow>
        s \<noteq> busy \<and> n \<le> n'
        \<and> calls evs = replicate (n' - n) req
        \<and> sleeps evs = replicate (n' - n) 45000
        \<and> (\<forall>m. n \<le> m \<and> Suc m < n' \<longrightarrow> outcome (read_status srv req key m) = Inr busy)
        \<and> (if n' = n then s = status
            else status = busy \<and> outcome (read_status srv req key (n' - 1)) = Inr s))"

section \<open>Sample services and data\<close>

text \<open>
  Concrete oracles and rows on which the theorems below are evaluated: an endpoint that
  always answers, one whose second invocation fails, and the first rows of the iris data.
\<close>

definition always_setosa :: "('p, string) service" where
  "always_setosa n sample = Inr ''setosa''"

definition second_call_times_out :: "('p, string) service" where
  "second_call_times_out n sample =
     (if n = 1 then Inl (ClientError ''timeout'') else Inr ''setosa'')"

definition iris_rows :: "string list list" where
  "iris_rows = [[''5.1'', ''3.5'', ''1.4'', ''0.2''], [''4.9'', ''3.0'', ''1.4'', ''0.2''],
                [''4.7'', ''3.2'', ''1.3'', ''0.2'']]"

text \<open>
  The ten samples printed in the recorded output of the iris notebook's drift cell, and
  twelve rows in the shape the Prosper notebook describes for its drift file (ten rows with
  negative values, then rows with a missing value).
\<close>

definition recorded_drift_data :: "int list list" where
  "recorded_drift_data =
     [[2, 4, 1, -3], [0, 0, -4, 3], [-4, 2, -4, 2], [4, -4, -3, -3], [2, -2, 2, 3],
      [1, -4, 3, -4], [2, -1, 4, 0], [2, -3, -4, -1], [3, -3, 2, 1], [1, 0, -2, 4]]"

definition drift_samples :: "string list list" where
  "drift_samples =
     [[''1'', ''-0.5''], [''2'', ''-1.5''], [''3'', ''-2.5''], [''4'', ''-3.5''],
      [''5'', ''-4.5''], [''6'', ''-5.5''], [''7'', ''-6.5''], [''8'', ''-7.5''],
      [''9'', ''-8.5''], [''10'', ''-9.5''], [''11'', []], [''12'', []]]"

text \<open>
  The iris measurements are multiples of 0.1. Here a measurement is given by its number of
  tenths, and its text has one decimal digit, as Python prints these floats; the rows are
  the first two samples of the recorded output of the baseline cell.
\<close>

definition tenths_text :: "nat \<Rightarrow> string" where
  "tenths_text t = str_nat (t div 10) @ ''.'' @ str_nat (t mod 10)"

definition recorded_baseline_rows :: "nat list list" where
  "recorded_baseline_rows = [[50, 23, 33, 10], [], [58, 27, 39, 12]]"

subsection \<open>Sample control planes\<close>

text \<open>
  A control plane that answers every request with an empty response; one whose \<open>k\<close>-th
  request fails and whose other requests return the three identifiers; one whose resources
  come up after two polls; and one whose resources end in \<^verbatim>\<open>Failed\<close>.
\<close>

definition acknowledging_service :: "(request, response) service" where
  "acknowledging_service n req = Inr Map.empty"

definition creation_fails_at :: "nat \<Rightarrow> (request, response) service" where
  "creation_fails_at k n req =
     (if n = k then Inl (ClientError ''ResourceLimitExceeded'')
      else Inr [''ModelArn'' \<mapsto> ''arn:model'',
                ''EndpointConfigArn'' \<mapsto> ''arn:endpoint-config'',
                ''EndpointArn'' \<mapsto> ''arn:endpoint''])"

definition endpoint_comes_up :: "(request, response) service" where
  "endpoint_comes_up n req =
     (case req of
        describe_endpoint _ \<Rightarrow>
          Inr [''EndpointStatus'' \<mapsto> (if n < 2 then ''Creating'' else ''InService'')]
      | describe_processing_job _ \<Rightarrow>
          Inr [''ProcessingJobStatus'' \<mapsto> (if n < 2 then ''InProgress'' else ''Completed'')]
      | _ \<Rightarrow> Inr Map.empty)"

definition polls_end_in_failure :: "(request, response) service" where
  "polls_end_in_failure n req =
     (case req of
        describe_endpoint _ \<Rightarrow>
          Inr [''EndpointStatus'' \<mapsto> (if n < 2 then ''Creating'' else ''Failed'')]
      | describe_processing_job _ \<Rightarrow>
          Inr [''ProcessingJobStatus'' \<mapsto> (if n < 2 then ''InProgress'' else ''Failed'')]
      | describe_schedule \<Rightarrow> Inr [''MonitoringScheduleStatus'' \<mapsto> ''Scheduled'']
      | _ \<Rightarrow> Inr Map.empty)"

section \<open>The replay loops, equation by equation\<close>

lemma outcome_simps [simp]: "outcome (r, n, evs) = r" "sent (r, n, evs) = n" "trace (r, n, evs) = evs"
  by (simp_all add: outcome_def sent_def trace_def)

lemma inference_loop_Cons_empty:
  "inference_loop predictor index ([] # rest) n = inference_loop predictor (Suc index) rest n"
  by simp

lemma inference_loop_Cons_raise:
  "sample \<noteq> [] \<Longrightarrow> predictor n sample = Inl e \<Longrightarrow>
   inference_loop predictor index (sample # rest) n = (Inl e, Suc n, [Call sample])"
  by simp

lemma inference_loop_Cons_ok:
  "sample \<noteq> [] \<Longrightarrow> predictor n sample = Inr response \<Longrightarrow>
   inference_loop predictor index (sample # rest) n =
     (outcome (inference_loop predictor (Suc index) rest (Suc n)),
      sent (inference_loop predictor (Suc index) rest (Suc n)),
      Call sample # Print_sample index sample (Some response) # Sleep 500
        # trace (inference_loop predictor (Suc index) rest (Suc n)))"
  by (simp add: outcome_def sent_def trace_def split: prod.splits)

lemma inference_loop_calls_prefix:
  "prefix (calls (trace (inference_loop predictor index samples n)))
          (filter (\<lambda>s. s \<noteq> []) samples)"
proof (induction samples arbitrary: index n)
  case Nil
  then show ?case by simp
next
  case (Cons sample rest)
  show ?case
  proof (cases "sample = []")
    case True
    then show ?thesis using Cons.IH by simp
  next
    case False
    then show ?thesis using Cons.IH [of "Suc index" "Suc n"]
      by (cases "predictor n sample")
         (simp_all add: inference_loop_Cons_raise inference_loop_Cons_ok del: inference_loop.simps)
  qed
qed

lemma inference_loop_abort:
  assumes "k < length (filter (\<lambda>s. s \<noteq> []) samples)"
    and "\<forall>j<k. \<not> isl (predictor (n + j) (filter (\<lambda>s. s \<noteq> []) samples ! j))"
    and "predictor (n + k) (filter (\<lambda>s. s \<noteq> []) samples ! k) = Inl e"
  shows "outcome (inference_loop predictor index samples n) = Inl e
       \<and> sent (inference_loop predictor index samples n) = n + Suc k
       \<and> calls (trace (inference_loop predictor index samples n))
           = take (Suc k) (filter (\<lambda>s. s \<noteq> []) samples)"
  using assms
proof (induction samples arbitrary: index n k)
  case Nil
  then show ?case by simp
next
  case (Cons sample rest)
  show ?case
  proof (cases "sample = []")
    case True
    then show ?thesis using Cons.IH [of k n "Suc index"] Cons.prems by simp
  next
    case False
    note nonempty = this
    show ?thesis
    proof (cases k)
      case 0
      then have "predictor n sample = Inl e" using Cons.prems nonempty by simp
      then show ?thesis using nonempty 0 by (simp add: inference_loop_Cons_raise del: inference_loop.simps)
    next
      case (Suc k')
      have "\<not> isl (predictor (n + 0) (filter (\<lambda>s. s \<noteq> []) (sample # rest) ! 0))"
        using Cons.prems(2) Suc by blast
      then obtain response where ok: "predictor n sample = Inr response"
        using nonempty by (cases "predictor n sample") simp_all
      have 1: "k' < length (filter (\<lambda>s. s \<noteq> []) rest)"
        using Cons.prems(1) nonempty Suc by simp
      have 2: "\<forall>j<k'. \<not> isl (predictor (Suc n + j) (filter (\<lambda>s. s \<noteq> []) rest ! j))"
      proof (intro allI impI)
        fix j assume "j < k'"
        then have "\<not> isl (predictor (n + Suc j) (filter (\<lambda>s. s \<noteq> []) (sample # rest) ! Suc j))"
          using Cons.prems(2) Suc by (metis Suc_less_eq)
        then show "\<not> isl (predictor (Suc n + j) (filter (\<lambda>s. s \<noteq> []) rest ! j))"
          using nonempty by simp
      qed
      have 3: "predictor (Suc n + k') (filter (\<lambda>s. s \<noteq> []) rest ! k') = Inl e"
        using Cons.prems(3) nonempty Suc by simp
      show ?thesis
        using Cons.IH [OF 1 2 3, of "Suc index"] nonempty ok Suc
        by (simp add: inference_loop_Cons_ok del: inference_loop.simps)
    qed
  qed
qed

lemma inference_loop_complete:
  assumes "\<forall>j<length (filter (\<lambda>s. s \<noteq> []) samples).
             \<not> isl (predictor (n + j) (filter (\<lambda>s. s \<noteq> []) samples ! j))"
  shows "outcome (inference_loop predictor index samples n) = Inr ()
       \<and> sent (inference_loop predictor index samples n)
           = n + length (filter (\<lambda>s. s \<noteq> []) samples)
       \<and> calls (trace (inference_loop predictor index samples n))
           = filter (\<lambda>s. s \<noteq> []) samples
       \<and> printed (trace (inference_loop predictor index samples n))
           = map (\<lambda>(m, i, s). (i, s, Some (projr (predictor m s))))
               (enumerate n (filter (\<lambda>(i, s). s \<noteq> []) (enumerate index samples)))"
  using assms
proof (induction samples arbitrary: index n)
  case Nil
  then show ?case by simp
next
  case (Cons sample rest)
  show ?case
  proof (cases "sample = []")
    case True
    then show ?thesis using Cons.IH [of n "Suc index"] Cons.prems by simp
  next
    case False
    note nonempty = this
    have "\<not> isl (predictor (n + 0) (filter (\<lambda>s. s \<noteq> []) (sample # rest) ! 0))"
      using Cons.prems nonempty by (metis (mono_tags, lifting) filter.simps(2) length_greater_0_conv list.distinct(1))
    then obtain response where ok: "predictor n sample = Inr response"
      using nonempty by (cases "predictor n sample") simp_all
    have 2: "\<forall>j<length (filter (\<lambda>s. s \<noteq> []) rest).
               \<not> isl (predictor (Suc n + j) (filter (\<lambda>s. s \<noteq> []) rest ! j))"
    proof (intro allI impI)
      fix j assume "j < length (filter (\<lambda>s. s \<noteq> []) rest)"
      then have "Suc j < length (filter (\<lambda>s. s \<noteq> []) (sample # rest))"
        using nonempty by simp
      then have "\<not> isl (predictor (n + Suc j) (filter (\<lambda>s. s \<noteq> []) (sample # rest) ! Suc j))"
        using Cons.prems by blast
      then show "\<not> isl (predictor (Suc n + j) (filter (\<lambda>s. s \<noteq> []) rest ! j))"
        using nonempty by simp
    qed
    show ?thesis
      using Cons.IH [OF 2, of "Suc index"] nonempty ok
      by (simp add: inference_loop_Cons_ok del: inference_loop.simps)
  qed
qed


lemma calls_append: "calls (xs @ ys) = calls xs @ calls ys"
  by (induction xs rule: calls.induct) simp_all

lemma printed_append: "printed (xs @ ys) = printed xs @ printed ys"
  by (induction xs rule: printed.induct) simp_all

lemma drift_loop_Cons_empty:
  "drift_loop predictor index ([] # rest) n =
     (outcome (drift_loop predictor (Suc index) rest n),
      sent (drift_loop predictor (Suc index) rest n),
      Print_sample index [] None # trace (drift_loop predictor (Suc index) rest n))"
  by (simp add: predict_def outcome_def sent_def trace_def split: prod.splits)

lemma drift_loop_Cons_raise:
  "sample \<noteq> [] \<Longrightarrow> predictor n sample = Inl e \<Longrightarrow>
   drift_loop predictor index (sample # rest) n = (Inl e, Suc n, [Call sample])"
  by (simp add: predict_def)

lemma drift_loop_Cons_ok:
  "sample \<noteq> [] \<Longrightarrow> predictor n sample = Inr response \<Longrightarrow>
   drift_loop predictor index (sample # rest) n =
     (outcome (drift_loop predictor (Suc index) rest (Suc n)),
      sent (drift_loop predictor (Suc index) rest (Suc n)),
      Call sample # Sleep 500 # Print_sample index sample (Some response)
        # trace (drift_loop predictor (Suc index) rest (Suc n)))"
  by (simp add: predict_def outcome_def sent_def trace_def split: prod.splits)

lemma drift_loop_inference_loop:
  "outcome (drift_loop predictor index samples n)
     = outcome (inference_loop predictor index samples n)
   \<and> sent (drift_loop predictor index samples n)
     = sent (inference_loop predictor index samples n)
   \<and> calls (trace (drift_loop predictor index samples n))
     = calls (trace (inference_loop predictor index samples n))
   \<and> filter (\<lambda>(i, s, r). s \<noteq> []) (printed (trace (drift_loop predictor index samples n)))
     = printed (trace (inference_loop predictor index samples n))"
proof (induction samples arbitrary: index n)
  case Nil
  then show ?case by simp
next
  case (Cons sample rest)
  show ?case
  proof (cases "sample = []")
    case True
    then show ?thesis using Cons.IH [of "Suc index" n]
      by (simp add: drift_loop_Cons_empty del: drift_loop.simps)
  next
    case False
    then show ?thesis using Cons.IH [of "Suc index" "Suc n"]
      by (cases "predictor n sample")
         (simp_all add: drift_loop_Cons_raise drift_loop_Cons_ok
            inference_loop_Cons_raise inference_loop_Cons_ok
            del: drift_loop.simps inference_loop.simps)
  qed
qed

lemma drift_loop_printed_rows:
  "outcome (drift_loop predictor index samples n) = Inr () \<Longrightarrow>
   map (\<lambda>(i, s, r). (i, s)) (printed (trace (drift_loop predictor index samples n)))
     = enumerate index samples"
proof (induction samples arbitrary: index n)
  case Nil
  then show ?case by simp
next
  case (Cons sample rest)
  show ?case
  proof (cases "sample = []")
    case True
    then show ?thesis using Cons.IH [of "Suc index" n] Cons.prems
      by (simp add: drift_loop_Cons_empty del: drift_loop.simps)
  next
    case False
    then show ?thesis using Cons.IH [of "Suc index" "Suc n"] Cons.prems
      by (cases "predictor n sample")
         (simp_all add: drift_loop_Cons_raise drift_loop_Cons_ok
            del: drift_loop.simps)
  qed
qed

lemma violation_loop_Cons_empty:
  "violation_loop predictor index ([] # rest) n =
     (outcome (violation_loop predictor (Suc index) rest n),
      sent (violation_loop predictor (Suc index) rest n),
      Sleep 500 # Print_sample index [] None # trace (violation_loop predictor (Suc index) rest n))"
  by (simp add: predict_undelayed_def outcome_def sent_def trace_def split: prod.splits)

lemma violation_loop_Cons_raise:
  "sample \<noteq> [] \<Longrightarrow> predictor n sample = Inl e \<Longrightarrow>
   violation_loop predictor index (sample # rest) n = (Inl e, Suc n, [Call sample])"
  by (simp add: predict_undelayed_def)

lemma violation_loop_Cons_ok:
  "sample \<noteq> [] \<Longrightarrow> predictor n sample = Inr response \<Longrightarrow>
   violation_loop predictor index (sample # rest) n =
     (outcome (violation_loop predictor (Suc index) rest (Suc n)),
      sent (violation_loop predictor (Suc index) rest (Suc n)),
      Call sample # Sleep 500 # Print_sample index sample (Some response)
        # trace (violation_loop predictor (Suc index) rest (Suc n)))"
  by (simp add: predict_undelayed_def outcome_def sent_def trace_def split: prod.splits)

lemma violation_loop_inference_loop:
  "outcome (violation_loop predictor index samples n)
     = outcome (inference_loop predictor index samples n)
   \<and> sent (violation_loop predictor index samples n)
     = sent (inference_loop predictor index samples n)
   \<and> calls (trace (violation_loop predictor index samples n))
     = calls (trace (inference_loop predictor index samples n))
   \<and> filter (\<lambda>(i, s, r). s \<noteq> []) (printed (trace (violation_loop predictor index samples n)))
     = printed (trace (inference_loop predictor index samples n))"
proof (induction samples arbitrary: index n)
  case Nil
  then show ?case by simp
next
  case (Cons sample rest)
  show ?case
  proof (cases "sample = []")
    case True
    then show ?thesis using Cons.IH [of "Suc index" n]
      by (simp add: violation_loop_Cons_empty del: violation_loop.simps)
  next
    case False
    then show ?thesis using Cons.IH [of "Suc index" "Suc n"]
      by (cases "predictor n sample")
         (simp_all add: violation_loop_Cons_raise violation_loop_Cons_ok
            inference_loop_Cons_raise inference_loop_Cons_ok
            del: violation_loop.simps inference_loop.simps)
  qed
qed

section \<open>The cells of the iris notebook in terms of their loop\<close>

lemma set_calls_subset:
  "prefix xs (filter (\<lambda>s. s \<noteq> []) ys) \<Longrightarrow> [] \<notin> set xs"
proof
  assume "prefix xs (filter (\<lambda>s. s \<noteq> []) ys)" and "[] \<in> set xs"
  then have "[] \<in> set (filter (\<lambda>s. s \<noteq> []) ys)"
    using set_mono_prefix by blast
  then show False by simp
qed

lemma inference_loop_no_empty_call:
  "[] \<notin> set (calls (trace (inference_loop predictor index samples n)))"
  using inference_loop_calls_prefix [of predictor index samples n] by (rule set_calls_subset)

lemma drift_loop_no_empty_call:
  "[] \<notin> set (calls (trace (drift_loop predictor index samples n)))"
  using inference_loop_no_empty_call [of predictor index samples n]
  by (simp add: drift_loop_inference_loop)

lemma violation_loop_no_empty_call:
  "[] \<notin> set (calls (trace (violation_loop predictor index samples n)))"
  using inference_loop_no_empty_call [of predictor index samples n]
  by (simp add: violation_loop_inference_loop)

lemma baseline_inference_loop:
  "outcome (baseline_inference shuffle predictor samples n)
     = outcome (inference_loop predictor 0 (take batch_size (shuffle (drop 1 samples))) n)
   \<and> sent (baseline_inference shuffle predictor samples n)
     = sent (inference_loop predictor 0 (take batch_size (shuffle (drop 1 samples))) n)
   \<and> calls (trace (baseline_inference shuffle predictor samples n))
     = calls (trace (inference_loop predictor 0 (take batch_size (shuffle (drop 1 samples))) n))
   \<and> printed (trace (baseline_inference shuffle predictor samples n))
     = printed (trace (inference_loop predictor 0 (take batch_size (shuffle (drop 1 samples))) n))"
  by (simp add: baseline_inference_def outcome_def sent_def trace_def calls_append printed_append
        split: prod.splits sum.splits)

lemma drift_inference_loop:
  "outcome (drift_inference predictor data n)
     = outcome (inference_loop predictor 0 (map (\<lambda>item. join '','' (map str_int item)) data) n)
   \<and> sent (drift_inference predictor data n)
     = sent (inference_loop predictor 0 (map (\<lambda>item. join '','' (map str_int item)) data) n)
   \<and> calls (trace (drift_inference predictor data n))
     = calls (trace (inference_loop predictor 0 (map (\<lambda>item. join '','' (map str_int item)) data) n))
   \<and> printed (trace (drift_inference predictor data n))
     = printed (trace (inference_loop predictor 0 (map (\<lambda>item. join '','' (map str_int item)) data) n))"
  by (simp add: drift_inference_def outcome_def sent_def trace_def calls_append printed_append
        comp_def split: prod.splits sum.splits)

section \<open>Zero-length rows\<close>

text \<open>
  C4. No replay loop invokes the endpoint for a row of length zero: in the iris notebook's loop
  and its two cells, in the loop of the Prosper notebook with its helper \<open>predict\<close>, and in
  the three cells of the earlier version with \<open>predict_undelayed\<close>, no invocation carries an
  empty sample, and both helpers return \<open>None\<close> for an empty sample without any effect.
  The samples a loop submits are, in order, a prefix of its rows of length greater than zero.
\<close>

theorem empty_rows_never_submitted:
  "[] \<notin> set (calls (trace (inference_loop predictor index samples n)))
   \<and> [] \<notin> set (calls (trace (baseline_inference shuffle predictor samples n)))
   \<and> [] \<notin> set (calls (trace (drift_inference endpoint data n)))
   \<and> predict predictor delay [] n = (Inr None, n, [])
   \<and> [] \<notin> set (calls (trace (drift_loop predictor index samples n)))
   \<and> predict_undelayed predictor [] n = (Inr None, n, [])
   \<and> [] \<notin> set (calls (trace (violation_loop predictor index samples n)))
   \<and> [] \<notin> set (calls (trace (data_type_check predictor samples n)))
   \<and> [] \<notin> set (calls (trace (completeness_check predictor samples n)))
   \<and> [] \<notin> set (calls (trace (baseline_drift_check predictor samples n)))
   \<and> prefix (calls (trace (inference_loop predictor index samples n)))
        (filter (\<lambda>sample. length sample > 0) samples)
   \<and> prefix (calls (trace (drift_loop predictor index samples n)))
        (filter (\<lambda>sample. length sample > 0) samples)
   \<and> prefix (calls (trace (violation_loop predictor index samples n)))
        (filter (\<lambda>sample. length sample > 0) samples)"
  using inference_loop_calls_prefix [of predictor index samples n]
  by (simp add: inference_loop_no_empty_call drift_loop_no_empty_call
        violation_loop_no_empty_call baseline_inference_loop drift_inference_loop
        predict_def predict_undelayed_def
        data_type_check_def completeness_check_def baseline_drift_check_def
        drift_loop_inference_loop violation_loop_inference_loop)

theorem empty_rows_never_submitted_witness:
  "calls (trace (inference_loop always_setosa 0 [[], [''5.1'', ''3.5''], [], []] 0))
     = [[''5.1'', ''3.5'']]
   \<and> calls (trace (drift_loop always_setosa 0 [[], [''5.1'', ''3.5''], [], []] 0))
     = [[''5.1'', ''3.5'']]
   \<and> [] \<notin> set (calls (trace (drift_loop always_setosa 0 [[], [''5.1'', ''3.5''], [], []] 0)))"
  using empty_rows_never_submitted [of always_setosa 0 "[[], [''5.1'', ''3.5''], [], []]" 0]
  by (simp add: always_setosa_def predict_def)

section \<open>An invocation that raises\<close>

text \<open>
  C8. If the invocation for the \<open>k\<close>-th non-empty row raises, after the invocations before it
  returned, then the loop ends with that exception, and the rows submitted are the first
  \<open>k + 1\<close> non-empty rows, each once: the failing row is not retried and no later row is
  submitted. This holds for the loop of the iris notebook and for the loop of the Prosper
  notebook.
\<close>

theorem raise_aborts_remaining_batch:
  assumes "k < length (filter (\<lambda>s. s \<noteq> []) samples)"
    and "\<forall>j<k. \<not> isl (predictor (n + j) (filter (\<lambda>s. s \<noteq> []) samples ! j))"
    and "predictor (n + k) (filter (\<lambda>s. s \<noteq> []) samples ! k) = Inl e"
  shows "outcome (inference_loop predictor index samples n) = Inl e
       \<and> calls (trace (inference_loop predictor index samples n))
           = take (Suc k) (filter (\<lambda>s. s \<noteq> []) samples)
       \<and> sent (inference_loop predictor index samples n) = n + Suc k
       \<and> outcome (drift_loop predictor index samples n) = Inl e
       \<and> calls (trace (drift_loop predictor index samples n))
           = take (Suc k) (filter (\<lambda>s. s \<noteq> []) samples)
       \<and> sent (drift_loop predictor index samples n) = n + Suc k"
  using inference_loop_abort [OF assms, of index]
  by (simp add: drift_loop_inference_loop)

theorem raise_aborts_remaining_batch_witness:
  "1 < length (filter (\<lambda>s. s \<noteq> []) iris_rows)
   \<and> second_call_times_out 0 (filter (\<lambda>s. s \<noteq> []) iris_rows ! 0) = Inr ''setosa''
   \<and> second_call_times_out (0 + 1) (filter (\<lambda>s. s \<noteq> []) iris_rows ! 1)
       = Inl (ClientError ''timeout'')
   \<and> outcome (inference_loop second_call_times_out 0 iris_rows 0) = Inl (ClientError ''timeout'')
   \<and> calls (trace (inference_loop second_call_times_out 0 iris_rows 0))
       = [[''5.1'', ''3.5'', ''1.4'', ''0.2''], [''4.9'', ''3.0'', ''1.4'', ''0.2'']]
   \<and> outcome (drift_loop second_call_times_out 0 iris_rows 0) = Inl (ClientError ''timeout'')
   \<and> calls (trace (drift_loop second_call_times_out 0 iris_rows 0))
       = [[''5.1'', ''3.5'', ''1.4'', ''0.2''], [''4.9'', ''3.0'', ''1.4'', ''0.2'']]"
proof -
  have h1: "1 < length (filter (\<lambda>s. s \<noteq> []) iris_rows)"
    by (simp add: iris_rows_def)
  have h2: "\<forall>j<1. \<not> isl (second_call_times_out (0 + j) (filter (\<lambda>s. s \<noteq> []) iris_rows ! j))"
    by (simp add: second_call_times_out_def)
  have h3: "second_call_times_out (0 + 1) (filter (\<lambda>s. s \<noteq> []) iris_rows ! 1)
              = Inl (ClientError ''timeout'')"
    by (simp add: second_call_times_out_def)
  have h0: "second_call_times_out 0 (filter (\<lambda>s. s \<noteq> []) iris_rows ! 0) = Inr ''setosa''"
    by (simp add: second_call_times_out_def)
  show ?thesis
    using h0 h1 h3 raise_aborts_remaining_batch [OF h1 h2 h3, of 0]
    by (simp add: iris_rows_def)
qed

section \<open>One triple for each non-empty row\<close>

text \<open>
  C1, as stated, fails for the baseline cell of the iris notebook: the cell shuffles the rows
  and replays a batch of them, so the triples do not follow the order of the dataset and not
  every row of the dataset has one. With three rows and a shuffle that reverses the list, the
  triples are those of the third and the second row, in that order.
\<close>

theorem baseline_reorders_and_drops_counterexample:
  "printed (trace (baseline_inference rev always_setosa iris_rows 0))
     = [(0, [''4.7'', ''3.2'', ''1.3'', ''0.2''], Some ''setosa''),
        (1, [''4.9'', ''3.0'', ''1.4'', ''0.2''], Some ''setosa'')]
   \<and> printed (trace (baseline_inference rev always_setosa iris_rows 0))
     \<noteq> [(0, [''5.1'', ''3.5'', ''1.4'', ''0.2''], Some ''setosa''),
        (1, [''4.9'', ''3.0'', ''1.4'', ''0.2''], Some ''setosa''),
        (2, [''4.7'', ''3.2'', ''1.3'', ''0.2''], Some ''setosa'')]"
  by (simp add: baseline_inference_def iris_rows_def always_setosa_def batch_size_def)

text \<open>
  C1, amended. For the list \<open>rows\<close> that a replay loop iterates over, and a run in which no
  invocation raises: the loop ends normally, and each non-empty row has exactly one triple
  \<open>(index, input, prediction)\<close>, where \<open>index\<close> is the row's position in \<open>rows\<close> and
  \<open>prediction\<close> is the endpoint's answer to that row's invocation; the triples are in the
  order of \<open>rows\<close>. The loop of the iris notebook prints nothing else; the loop of the Prosper
  notebook prints one line for every row, with \<open>None\<close> as the prediction of an empty row.
\<close>

theorem one_triple_per_nonempty_row:
  assumes "\<forall>j<length (filter (\<lambda>s. s \<noteq> []) rows).
             \<not> isl (predictor (n + j) (filter (\<lambda>s. s \<noteq> []) rows ! j))"
  shows "outcome (inference_loop predictor 0 rows n) = Inr ()
       \<and> printed (trace (inference_loop predictor 0 rows n))
           = map (\<lambda>(m, i, s). (i, s, Some (projr (predictor m s))))
               (enumerate n (filter (\<lambda>(i, s). s \<noteq> []) (enumerate 0 rows)))
       \<and> outcome (drift_loop predictor 0 rows n) = Inr ()
       \<and> filter (\<lambda>(i, s, r). s \<noteq> []) (printed (trace (drift_loop predictor 0 rows n)))
           = map (\<lambda>(m, i, s). (i, s, Some (projr (predictor m s))))
               (enumerate n (filter (\<lambda>(i, s). s \<noteq> []) (enumerate 0 rows)))
       \<and> map (\<lambda>(i, s, r). (i, s)) (printed (trace (drift_loop predictor 0 rows n)))
           = enumerate 0 rows"
proof -
  note loop = inference_loop_complete [OF assms, of 0]
  have "outcome (drift_loop predictor 0 rows n) = Inr ()"
    using loop by (simp add: drift_loop_inference_loop)
  then show ?thesis
    using loop drift_loop_printed_rows [of predictor 0 rows n]
    by (simp add: drift_loop_inference_loop)
qed

theorem one_triple_per_nonempty_row_witness:
  "outcome (drift_loop always_setosa 0 ([] # iris_rows) 0) = Inr ()
   \<and> printed (trace (inference_loop always_setosa 0 ([] # iris_rows) 0))
     = [(1, [''5.1'', ''3.5'', ''1.4'', ''0.2''], Some ''setosa''),
        (2, [''4.9'', ''3.0'', ''1.4'', ''0.2''], Some ''setosa''),
        (3, [''4.7'', ''3.2'', ''1.3'', ''0.2''], Some ''setosa'')]
   \<and> printed (trace (drift_loop always_setosa 0 ([] # iris_rows) 0))
     = [(0, [], None),
        (1, [''5.1'', ''3.5'', ''1.4'', ''0.2''], Some ''setosa''),
        (2, [''4.9'', ''3.0'', ''1.4'', ''0.2''], Some ''setosa''),
        (3, [''4.7'', ''3.2'', ''1.3'', ''0.2''], Some ''setosa'')]"
proof -
  have h: "\<forall>j<length (filter (\<lambda>s. s \<noteq> []) ([] # iris_rows)).
      \<not> isl (always_setosa (0 + j) (filter (\<lambda>s. s \<noteq> []) ([] # iris_rows) ! j))"
    by (simp add: always_setosa_def)
  show ?thesis
    using one_triple_per_nonempty_row [OF h]
    by (simp add: iris_rows_def always_setosa_def predict_def)
qed

section \<open>Facts about joined lines, printed inputs and sub-multisets\<close>

lemma violation_loop_printed_rows:
  "outcome (violation_loop predictor index samples n) = Inr () \<Longrightarrow>
   map (\<lambda>(i, s, r). (i, s)) (printed (trace (violation_loop predictor index samples n)))
     = enumerate index samples"
proof (induction samples arbitrary: index n)
  case Nil
  then show ?case by simp
next
  case (Cons sample rest)
  show ?case
  proof (cases "sample = []")
    case True
    then show ?thesis using Cons.IH [of "Suc index" n] Cons.prems
      by (simp add: violation_loop_Cons_empty del: violation_loop.simps)
  next
    case False
    then show ?thesis using Cons.IH [of "Suc index" "Suc n"] Cons.prems
      by (cases "predictor n sample")
         (simp_all add: violation_loop_Cons_raise violation_loop_Cons_ok
            del: violation_loop.simps)
  qed
qed

lemma str_nat_nonempty: "str_nat k \<noteq> []"
  by (subst str_nat.simps) simp

lemma str_int_nonempty: "str_int i \<noteq> []"
  by (simp add: str_int_def str_nat_nonempty)

lemma join_nonempty: "row \<noteq> [] \<Longrightarrow> hd row \<noteq> [] \<Longrightarrow> join sep row \<noteq> []"
  by (induction sep row rule: join.induct) simp_all

lemma join_butlast:
  "row \<noteq> [] \<Longrightarrow> join sep row = concat (map (\<lambda>field. field @ sep) (butlast row)) @ last row"
  by (induction sep row rule: join.induct) simp_all

lemma filter_nonempty_all: "\<forall>s\<in>set rows. s \<noteq> [] \<Longrightarrow> filter (\<lambda>s. s \<noteq> []) rows = rows"
  by (induction rows) simp_all

lemma inputs_of_enumerate:
  "map (\<lambda>(i, s, r). (i, s)) triples = enumerate k rows \<Longrightarrow> map (\<lambda>(i, s, r). s) triples = rows"
proof -
  assume "map (\<lambda>(i, s, r). (i, s)) triples = enumerate k rows"
  then have "map snd (map (\<lambda>(i, s, r). (i, s)) triples) = map snd (enumerate k rows)"
    by simp
  moreover have "map snd (map (\<lambda>(i, s, r). (i, s)) triples) = map (\<lambda>(i, s, r). s) triples"
    by (simp add: comp_def case_prod_unfold)
  ultimately show ?thesis by simp
qed

lemma mset_prefix_subset: "prefix xs ys \<Longrightarrow> mset xs \<subseteq># mset ys"
  by (auto simp: prefix_def)

lemma mset_take_subset: "mset (take k xs) \<subseteq># mset xs"
  by (metis append_take_drop_id mset_append mset_subset_eq_add_left)

lemma baseline_calls_prefix:
  "prefix (calls (trace (baseline_inference shuffle predictor samples n)))
     (filter (\<lambda>s. s \<noteq> []) (take batch_size (shuffle (drop 1 samples))))"
  using inference_loop_calls_prefix [of predictor 0 "take batch_size (shuffle (drop 1 samples))" n]
  by (simp add: baseline_inference_loop)

section \<open>The drift rows reach the endpoint as they are\<close>

text \<open>
  C6. When the rows replayed are non-empty and no invocation raises, the samples submitted are
  the rows themselves, all of them, in order and unchanged: for the cell that replays
  \<^verbatim>\<open>samples[0:10]\<close> of the Prosper drift file these are its first ten rows (which are also
  the inputs it prints), and for the drift cell of the iris notebook they are the comma-joined
  decimal texts of the rows of the generated array.
\<close>

theorem drift_rows_submitted_unmodified:
  "((\<forall>s\<in>set (take 10 samples). s \<noteq> [])
      \<and> (\<forall>j<length (take 10 samples). \<not> isl (predictor (n + j) (take 10 samples ! j)))
    \<longrightarrow> outcome (data_type_check predictor samples n) = Inr ()
        \<and> calls (trace (data_type_check predictor samples n)) = take 10 samples
        \<and> map (\<lambda>(i, s, r). s) (printed (trace (data_type_check predictor samples n)))
            = take 10 samples)
   \<and> ((\<forall>row\<in>set data. row \<noteq> [])
      \<and> (\<forall>j<length data. \<not> isl (endpoint (n + j) (join '','' (map str_int (data ! j)))))
    \<longrightarrow> outcome (drift_inference endpoint data n) = Inr ()
        \<and> calls (trace (drift_inference endpoint data n))
            = map (\<lambda>row. join '','' (map str_int row)) data)"
proof (intro conjI impI)
  assume a: "(\<forall>s\<in>set (take 10 samples). s \<noteq> [])
      \<and> (\<forall>j<length (take 10 samples). \<not> isl (predictor (n + j) (take 10 samples ! j)))"
  then have all: "filter (\<lambda>s. s \<noteq> []) (take 10 samples) = take 10 samples"
    by (simp add: filter_nonempty_all)
  have "\<forall>j<length (filter (\<lambda>s. s \<noteq> []) (take 10 samples)).
           \<not> isl (predictor (n + j) (filter (\<lambda>s. s \<noteq> []) (take 10 samples) ! j))"
    using a by (simp only: all) simp
  note loop = inference_loop_complete [OF this, of 0]
  show fin: "outcome (data_type_check predictor samples n) = Inr ()"
    using loop by (simp add: data_type_check_def violation_loop_inference_loop)
  show "calls (trace (data_type_check predictor samples n)) = take 10 samples"
    using loop all by (simp add: data_type_check_def violation_loop_inference_loop)
  show "map (\<lambda>(i, s, r). s) (printed (trace (data_type_check predictor samples n)))
          = take 10 samples"
    using fin violation_loop_printed_rows [of predictor 0 "take 10 samples" n]
    by (simp add: data_type_check_def inputs_of_enumerate)
next
  let ?payloads = "map (\<lambda>row. join '','' (map str_int row)) data"
  assume a: "(\<forall>row\<in>set data. row \<noteq> [])
      \<and> (\<forall>j<length data. \<not> isl (endpoint (n + j) (join '','' (map str_int (data ! j)))))"
  have "\<forall>s\<in>set ?payloads. s \<noteq> []"
  proof
    fix s assume "s \<in> set ?payloads"
    then obtain row where "row \<in> set data" and s: "s = join '','' (map str_int row)"
      by auto
    then have "row \<noteq> []" using a by blast
    then have "map str_int row \<noteq> []" and "hd (map str_int row) \<noteq> []"
      by (simp_all add: hd_map str_int_nonempty)
    then show "s \<noteq> []" unfolding s by (rule join_nonempty)
  qed
  then have all: "filter (\<lambda>s. s \<noteq> []) ?payloads = ?payloads"
    by (rule filter_nonempty_all)
  have "\<forall>j<length (filter (\<lambda>s. s \<noteq> []) ?payloads).
           \<not> isl (endpoint (n + j) (filter (\<lambda>s. s \<noteq> []) ?payloads ! j))"
    using a by (simp only: all) simp
  note loop = inference_loop_complete [OF this, of 0]
  show "outcome (drift_inference endpoint data n) = Inr ()"
    using loop by (simp add: drift_inference_loop)
  show "calls (trace (drift_inference endpoint data n)) = ?payloads"
    using loop all by (simp add: drift_inference_loop)
qed


theorem drift_rows_submitted_unmodified_witness:
  "length (take 10 drift_samples) = 10
   \<and> calls (trace (data_type_check always_setosa drift_samples 0))
       = [[''1'', ''-0.5''], [''2'', ''-1.5''], [''3'', ''-2.5''], [''4'', ''-3.5''],
          [''5'', ''-4.5''], [''6'', ''-5.5''], [''7'', ''-6.5''], [''8'', ''-7.5''],
          [''9'', ''-8.5''], [''10'', ''-9.5'']]
   \<and> length recorded_drift_data = 10
   \<and> calls (trace (drift_inference always_setosa recorded_drift_data 0))
       = [''2,4,1,-3'', ''0,0,-4,3'', ''-4,2,-4,2'', ''4,-4,-3,-3'', ''2,-2,2,3'',
          ''1,-4,3,-4'', ''2,-1,4,0'', ''2,-3,-4,-1'', ''3,-3,2,1'', ''1,0,-2,4'']"
proof -
  have h1: "(\<forall>s\<in>set (take 10 drift_samples). s \<noteq> [])
      \<and> (\<forall>j<length (take 10 drift_samples).
            \<not> isl (always_setosa (0 + j) (take 10 drift_samples ! j)))"
    by (simp add: drift_samples_def always_setosa_def)
  have h2: "(\<forall>row\<in>set recorded_drift_data. row \<noteq> [])
      \<and> (\<forall>j<length recorded_drift_data.
            \<not> isl (always_setosa (0 + j) (join '','' (map str_int (recorded_drift_data ! j)))))"
    by (simp add: recorded_drift_data_def always_setosa_def)
  have payloads: "map (\<lambda>row. join '','' (map str_int row)) recorded_drift_data
       = [''2,4,1,-3'', ''0,0,-4,3'', ''-4,2,-4,2'', ''4,-4,-3,-3'', ''2,-2,2,3'',
          ''1,-4,3,-4'', ''2,-1,4,0'', ''2,-3,-4,-1'', ''3,-3,2,1'', ''1,0,-2,4'']"
    by (simp add: recorded_drift_data_def str_int_def str_nat.simps)
  have rows: "take 10 drift_samples
       = [[''1'', ''-0.5''], [''2'', ''-1.5''], [''3'', ''-2.5''], [''4'', ''-3.5''],
          [''5'', ''-4.5''], [''6'', ''-5.5''], [''7'', ''-6.5''], [''8'', ''-7.5''],
          [''9'', ''-8.5''], [''10'', ''-9.5'']]"
    by (simp add: drift_samples_def)
  from drift_rows_submitted_unmodified
         [of drift_samples always_setosa 0 recorded_drift_data always_setosa]
  have "calls (trace (data_type_check always_setosa drift_samples 0)) = take 10 drift_samples"
    and "calls (trace (drift_inference always_setosa recorded_drift_data 0))
           = map (\<lambda>row. join '','' (map str_int row)) recorded_drift_data"
    using h1 h2 by blast+
  moreover have "length (take 10 drift_samples) = 10" and "length recorded_drift_data = 10"
    by (simp_all add: drift_samples_def recorded_drift_data_def)
  ultimately show ?thesis by (simp add: payloads rows)
qed

section \<open>Serialization to a comma-separated line\<close>

lemma join_str_int_empty: "join '','' (map str_int item) = [] \<longleftrightarrow> item = []"
proof
  assume empty: "join '','' (map str_int item) = []"
  show "item = []"
  proof (rule ccontr)
    assume "item \<noteq> []"
    then have "map str_int item \<noteq> []" and "hd (map str_int item) \<noteq> []"
      by (simp_all add: hd_map str_int_nonempty)
    then have "join '','' (map str_int item) \<noteq> []" by (rule join_nonempty)
    then show False using empty by simp
  qed
next
  assume "item = []"
  then show "join '','' (map str_int item) = []" by simp
qed

lemma drift_payloads_nonempty:
  "filter (\<lambda>s. s \<noteq> []) (map (\<lambda>item. join '','' (map str_int item)) data)
     = map (\<lambda>item. join '','' (map str_int item)) (filter (\<lambda>item. item \<noteq> []) data)"
  by (induction data) (simp_all add: join_str_int_empty)

lemma inference_loop_single:
  "calls (trace (inference_loop predictor index [sample] n)) = (if sample = [] then [] else [sample])"
  by (simp split: sum.splits)

text \<open>
  C7. With the serializer as the spec describes it, the row whose fields print as \<open>5.0\<close>,
  \<open>2.3\<close>, \<open>3.3\<close>, \<open>1.0\<close> is sent as \<open>5.0,2.3,3.3,1.0\<close>, and every non-empty row is sent as
  each field's text but the last followed by one comma, then the last field's text with
  nothing after it. In the replay loop of the iris notebook each non-empty row has this line
  as its payload: a single row always, and all rows, one payload each and in order, in a run
  in which no invocation raises; the baseline cell sends what its loop sends. The drift cell
  joins by itself: for each non-empty row of the array the sample it submits is the
  comma-join of the decimal texts of that row's values, again for a single row always and
  for all rows in order when no invocation raises.
\<close>

theorem row_payload_is_comma_join:
  "(map str row = [''5.0'', ''2.3'', ''3.3'', ''1.0'']
      \<longrightarrow> CSVSerializer str row = ''5.0,2.3,3.3,1.0'')
   \<and> (row \<noteq> []
      \<longrightarrow> CSVSerializer str row
            = concat (map (\<lambda>field. str field @ '','') (butlast row)) @ str (last row))
   \<and> (row \<noteq> []
      \<longrightarrow> payloads str (trace (inference_loop predictor index [row] n))
            = [join '','' (map str row)])
   \<and> ((\<forall>j<length (filter (\<lambda>s. s \<noteq> []) rows).
          \<not> isl (predictor (n + j) (filter (\<lambda>s. s \<noteq> []) rows ! j)))
      \<longrightarrow> payloads str (trace (inference_loop predictor index rows n))
            = map (\<lambda>row. join '','' (map str row)) (filter (\<lambda>s. s \<noteq> []) rows))
   \<and> payloads str (trace (baseline_inference shuffle predictor samples n))
       = payloads str (trace (inference_loop predictor 0
                                (take batch_size (shuffle (drop 1 samples))) n))
   \<and> calls (trace (drift_inference endpoint [item] m))
       = (if item = [] then [] else [join '','' (map str_int item)])
   \<and> ((\<forall>j<length (filter (\<lambda>item. item \<noteq> []) data).
          \<not> isl (endpoint (m + j)
                 (join '','' (map str_int (filter (\<lambda>item. item \<noteq> []) data ! j)))))
      \<longrightarrow> calls (trace (drift_inference endpoint data m))
            = map (\<lambda>item. join '','' (map str_int item)) (filter (\<lambda>item. item \<noteq> []) data))"
proof (intro conjI impI)
  assume "map str row = [''5.0'', ''2.3'', ''3.3'', ''1.0'']"
  then show "CSVSerializer str row = ''5.0,2.3,3.3,1.0''"
    by (simp add: CSVSerializer_def)
next
  assume "row \<noteq> []"
  then show "CSVSerializer str row
      = concat (map (\<lambda>field. str field @ '','') (butlast row)) @ str (last row)"
    by (simp add: CSVSerializer_def join_butlast map_butlast last_map comp_def)
next
  assume "row \<noteq> []"
  then show "payloads str (trace (inference_loop predictor index [row] n))
      = [join '','' (map str row)]"
    by (simp only: payloads_def inference_loop_single) (simp add: CSVSerializer_def)
next
  assume "\<forall>j<length (filter (\<lambda>s. s \<noteq> []) rows).
          \<not> isl (predictor (n + j) (filter (\<lambda>s. s \<noteq> []) rows ! j))"
  then have "calls (trace (inference_loop predictor index rows n)) = filter (\<lambda>s. s \<noteq> []) rows"
    using inference_loop_complete [of rows predictor n index] by blast
  then show "payloads str (trace (inference_loop predictor index rows n))
      = map (\<lambda>row. join '','' (map str row)) (filter (\<lambda>s. s \<noteq> []) rows)"
    by (simp add: payloads_def CSVSerializer_def)
next
  show "payloads str (trace (baseline_inference shuffle predictor samples n))
       = payloads str (trace (inference_loop predictor 0
                                (take batch_size (shuffle (drop 1 samples))) n))"
    by (simp add: payloads_def baseline_inference_loop)
next
  show "calls (trace (drift_inference endpoint [item] m))
       = (if item = [] then [] else [join '','' (map str_int item)])"
    by (simp only: drift_inference_loop list.map inference_loop_single join_str_int_empty)
next
  let ?sent = "map (\<lambda>item. join '','' (map str_int item)) data"
  assume answered: "\<forall>j<length (filter (\<lambda>item. item \<noteq> []) data).
          \<not> isl (endpoint (m + j)
                 (join '','' (map str_int (filter (\<lambda>item. item \<noteq> []) data ! j))))"
  have "\<forall>j<length (filter (\<lambda>s. s \<noteq> []) ?sent).
          \<not> isl (endpoint (m + j) (filter (\<lambda>s. s \<noteq> []) ?sent ! j))"
    using answered by (simp add: drift_payloads_nonempty)
  then have "calls (trace (inference_loop endpoint 0 ?sent m)) = filter (\<lambda>s. s \<noteq> []) ?sent"
    using inference_loop_complete [of ?sent endpoint m 0] by blast
  then show "calls (trace (drift_inference endpoint data m))
      = map (\<lambda>item. join '','' (map str_int item)) (filter (\<lambda>item. item \<noteq> []) data)"
    by (simp add: drift_inference_loop drift_payloads_nonempty)
qed

theorem row_payload_is_comma_join_witness:
  "CSVSerializer tenths_text [50, 23, 33, 10] = ''5.0,2.3,3.3,1.0''
   \<and> payloads tenths_text (trace (inference_loop second_call_times_out 0 [[50, 23, 33, 10]] 1))
       = [''5.0,2.3,3.3,1.0'']
   \<and> payloads tenths_text (trace (inference_loop always_setosa 0 recorded_baseline_rows 0))
       = [''5.0,2.3,3.3,1.0'', ''5.8,2.7,3.9,1.2'']
   \<and> calls (trace (drift_inference second_call_times_out [[2, 4, 1, -3]] 1)) = [''2,4,1,-3'']
   \<and> calls (trace (drift_inference always_setosa [[2, 4, 1, -3], [], [0, 0, -4, 3]] 0))
       = [''2,4,1,-3'', ''0,0,-4,3'']"
proof -
  have printed_as: "tenths_text 50 = ''5.0''" "tenths_text 23 = ''2.3''" "tenths_text 33 = ''3.3''"
    "tenths_text 10 = ''1.0''" "tenths_text 58 = ''5.8''" "tenths_text 27 = ''2.7''"
    "tenths_text 39 = ''3.9''" "tenths_text 12 = ''1.2''"
    by (simp_all add: tenths_text_def str_nat.simps)
  have texts: "map tenths_text [50, 23, 33, 10] = [''5.0'', ''2.3'', ''3.3'', ''1.0'']"
    by (simp add: printed_as)
  have row: "[50, 23, 33, 10] \<noteq> ([] :: nat list)"
    by simp
  have answered: "\<forall>j<length (filter (\<lambda>s. s \<noteq> []) recorded_baseline_rows).
      \<not> isl (always_setosa (0 + j) (filter (\<lambda>s. s \<noteq> []) recorded_baseline_rows ! j))"
    by (simp add: always_setosa_def)
  have answered': "\<forall>j<length (filter (\<lambda>item. item \<noteq> []) [[2, 4, 1, -3], [], [0, 0, -4, 3]]).
      \<not> isl (always_setosa (0 + j)
             (join '','' (map str_int
                (filter (\<lambda>item. item \<noteq> []) [[2, 4, 1, -3], [], [0, 0, -4, 3 :: int]] ! j))))"
    by (simp add: always_setosa_def)
  note fixed = row_payload_is_comma_join
      [where str = tenths_text and row = "[50, 23, 33, 10]"
         and predictor = second_call_times_out and index = 0 and n = 1
         and endpoint = second_call_times_out and item = "[2, 4, 1, -3]" and m = 1]
  note run = row_payload_is_comma_join
      [where str = tenths_text and predictor = always_setosa and index = 0 and n = 0
         and rows = recorded_baseline_rows
         and endpoint = always_setosa and m = 0 and data = "[[2, 4, 1, -3], [], [0, 0, -4, 3]]"]
  have line: "join '','' (map tenths_text [50, 23, 33, 10]) = ''5.0,2.3,3.3,1.0''"
    by (simp add: printed_as)
  have lines: "map (\<lambda>row. join '','' (map tenths_text row))
                 (filter (\<lambda>s. s \<noteq> []) recorded_baseline_rows)
               = [''5.0,2.3,3.3,1.0'', ''5.8,2.7,3.9,1.2'']"
    by (simp add: recorded_baseline_rows_def printed_as)
  have joined: "(if [2, 4, 1, -3] = ([] :: int list) then []
                 else [join '','' (map str_int [2, 4, 1, -3])]) = [''2,4,1,-3'']"
    by (simp add: str_int_def str_nat.simps)
  have joined': "map (\<lambda>item. join '','' (map str_int item))
                   (filter (\<lambda>item. item \<noteq> []) [[2, 4, 1, -3], [], [0, 0, -4, 3]])
                 = [''2,4,1,-3'', ''0,0,-4,3'']"
    by (simp add: str_int_def str_nat.simps)
  have "CSVSerializer tenths_text [50, 23, 33, 10] = ''5.0,2.3,3.3,1.0''"
    using fixed [THEN conjunct1, rule_format, OF texts] .
  moreover have "payloads tenths_text
        (trace (inference_loop second_call_times_out 0 [[50, 23, 33, 10]] 1))
       = [''5.0,2.3,3.3,1.0'']"
    using fixed [THEN conjunct2, THEN conjunct2, THEN conjunct1, rule_format, OF row]
    by (simp only: line)
  moreover have "payloads tenths_text (trace (inference_loop always_setosa 0 recorded_baseline_rows 0))
       = [''5.0,2.3,3.3,1.0'', ''5.8,2.7,3.9,1.2'']"
    using run [THEN conjunct2, THEN conjunct2, THEN conjunct2, THEN conjunct1, THEN mp,
               OF answered]
    by (simp only: lines)
  moreover have "calls (trace (drift_inference second_call_times_out [[2, 4, 1, -3]] 1))
       = [''2,4,1,-3'']"
    using fixed [THEN conjunct2, THEN conjunct2, THEN conjunct2, THEN conjunct2, THEN conjunct2,
                 THEN conjunct1]
    by (simp only: joined)
  moreover have "calls (trace (drift_inference always_setosa [[2, 4, 1, -3], [], [0, 0, -4, 3]] 0))
       = [''2,4,1,-3'', ''0,0,-4,3'']"
    using run [THEN conjunct2, THEN conjunct2, THEN conjunct2, THEN conjunct2, THEN conjunct2,
               THEN conjunct2, THEN mp, OF answered']
    by (simp only: joined')
  ultimately show ?thesis by blast
qed

section \<open>The first row of the iris data\<close>

text \<open>
  C9. In the baseline cell of the iris notebook, whatever permutation the shuffle produces, the
  samples submitted are taken from the rows after the first one: they are a prefix of the
  non-empty rows among the first \<open>batch_size\<close> of the shuffled remainder, at most
  \<open>batch_size\<close> many, each a row of \<open>samples[1:]\<close> and none used more often than it occurs
  there. So when no other row equals it, the first row is not submitted; and replacing the first
  row by any other changes nothing in the run.
\<close>

theorem baseline_never_submits_first_row:
  assumes "mset (shuffle (drop 1 samples)) = mset (drop 1 samples)"
  shows "prefix (calls (trace (baseline_inference shuffle predictor samples n)))
           (filter (\<lambda>s. s \<noteq> []) (take batch_size (shuffle (drop 1 samples))))
       \<and> mset (calls (trace (baseline_inference shuffle predictor samples n)))
           \<subseteq># mset (drop 1 samples)
       \<and> length (calls (trace (baseline_inference shuffle predictor samples n))) \<le> batch_size
       \<and> (samples \<noteq> [] \<and> distinct samples
            \<longrightarrow> hd samples \<notin> set (calls (trace (baseline_inference shuffle predictor samples n))))
       \<and> baseline_inference shuffle predictor (row # rest) n
           = baseline_inference shuffle predictor (other # rest) n"
proof -
  let ?calls = "calls (trace (baseline_inference shuffle predictor samples n))"
  let ?batch = "take batch_size (shuffle (drop 1 samples))"
  note pre = baseline_calls_prefix [of shuffle predictor samples n]
  have "mset ?calls \<subseteq># mset (filter (\<lambda>s. s \<noteq> []) ?batch)"
    using pre by (rule mset_prefix_subset)
  also have "\<dots> \<subseteq># mset ?batch"
    by simp
  also have "\<dots> \<subseteq># mset (shuffle (drop 1 samples))"
    by (rule mset_take_subset)
  finally have sub: "mset ?calls \<subseteq># mset (drop 1 samples)"
    using assms by simp
  have "length ?calls \<le> length (filter (\<lambda>s. s \<noteq> []) ?batch)"
    using pre by (rule prefix_length_le)
  also have "\<dots> \<le> length ?batch"
    by (rule length_filter_le)
  finally have len: "length ?calls \<le> batch_size"
    by simp
  have first: "hd samples \<notin> set ?calls" if ne: "samples \<noteq> [] \<and> distinct samples"
  proof -
    obtain r rs where s: "samples = r # rs" using ne by (cases samples) auto
    have "set ?calls \<subseteq> set (drop 1 samples)"
      using sub by (metis set_mset_mono set_mset_mset)
    then show ?thesis using ne s by auto
  qed
  have "baseline_inference shuffle predictor (row # rest) n
          = baseline_inference shuffle predictor (other # rest) n"
    by (simp add: baseline_inference_def)
  then show ?thesis using pre sub len first by blast
qed

theorem baseline_never_submits_first_row_witness:
  "mset (rev (drop 1 iris_rows)) = mset (drop 1 iris_rows)
   \<and> iris_rows \<noteq> [] \<and> distinct iris_rows
   \<and> calls (trace (baseline_inference rev always_setosa iris_rows 0))
       = [[''4.7'', ''3.2'', ''1.3'', ''0.2''], [''4.9'', ''3.0'', ''1.4'', ''0.2'']]
   \<and> hd iris_rows \<notin> set (calls (trace (baseline_inference rev always_setosa iris_rows 0)))"
proof -
  have h: "mset (rev (drop 1 iris_rows)) = mset (drop 1 iris_rows)"
    by simp
  have d: "iris_rows \<noteq> [] \<and> distinct iris_rows"
    by (simp add: iris_rows_def)
  have "hd iris_rows \<notin> set (calls (trace (baseline_inference rev always_setosa iris_rows 0)))"
    using baseline_never_submits_first_row
            [where shuffle = rev and samples = iris_rows and predictor = always_setosa and n = 0]
          h d
    by blast
  moreover have "calls (trace (baseline_inference rev always_setosa iris_rows 0))
       = [[''4.7'', ''3.2'', ''1.3'', ''0.2''], [''4.9'', ''3.0'', ''1.4'', ''0.2'']]"
    by (simp add: baseline_inference_def iris_rows_def always_setosa_def batch_size_def)
  ultimately show ?thesis using h d by blast
qed

section \<open>Sequencing of cells\<close>

lemma seq_raise: "outcome (c n) = Inl e \<Longrightarrow> seq c f n = (Inl e, sent (c n), trace (c n))"
  by (cases "c n") (simp add: seq_def)

lemma seq_continue:
  "outcome (c n) = Inr x \<Longrightarrow>
   seq c f n = (outcome (f x (sent (c n))), sent (f x (sent (c n))),
                trace (c n) @ trace (f x (sent (c n))))"
  by (cases "c n"; cases "f x (sent (c n))") (simp add: seq_def)

lemma cleanup_step_eq:
  "cleanup_step srv doing req listing list_req n =
     (case srv n req of
        Inl e \<Rightarrow> (Inl e, Suc n, [Print doing, Call req])
      | Inr r \<Rightarrow>
         (srv (Suc n) list_req, Suc (Suc n),
          [Print doing, Call req, Sleep 30000, Print listing, Call list_req]))"
  by (simp add: cleanup_step_def seq_def send_def sleep_def print_def split: sum.splits)

lemma cleanup_step_complete:
  "outcome (cleanup_step srv doing req listing list_req n) = Inr r \<Longrightarrow>
   cleanup_step srv doing req listing list_req n =
     (Inr r, Suc (Suc n), [Print doing, Call req, Sleep 30000, Print listing, Call list_req])"
  by (simp add: cleanup_step_eq split: sum.splits)

lemma cleanup_step_answered:
  "\<forall>m r. \<not> isl (srv m r) \<Longrightarrow>
   \<exists>r. outcome (cleanup_step srv doing req listing list_req n) = Inr r"
proof -
  assume a: "\<forall>m r. \<not> isl (srv m r)"
  then obtain r1 r2 where "srv n req = Inr r1" and "srv (Suc n) list_req = Inr r2"
    by (metis isl_def sum.exhaust_sel sum.collapse(2))
  then show ?thesis by (simp add: cleanup_step_eq)
qed

lemma seq_outcome_Inr:
  "outcome (seq c f n) = Inr y \<Longrightarrow> \<exists>x. outcome (c n) = Inr x"
  by (cases "c n"; cases "outcome (c n)") (auto simp: seq_def split: prod.splits sum.splits)


lemma seq_cleanup_complete:
  assumes "outcome (seq (cleanup_step srv doing req listing list_req) (\<lambda>_. rest) n) = Inr y"
  shows "outcome (rest (Suc (Suc n))) = Inr y
       \<and> trace (seq (cleanup_step srv doing req listing list_req) (\<lambda>_. rest) n)
           = [Print doing, Call req, Sleep 30000, Print listing, Call list_req]
               @ trace (rest (Suc (Suc n)))
       \<and> sent (seq (cleanup_step srv doing req listing list_req) (\<lambda>_. rest) n)
           = sent (rest (Suc (Suc n)))"
proof -
  obtain x where x: "outcome (cleanup_step srv doing req listing list_req n) = Inr x"
    using seq_outcome_Inr [where c = "cleanup_step srv doing req listing list_req"
            and f = "\<lambda>_. rest" and n = n and y = y] assms
    by blast
  note step = cleanup_step_complete [OF x]
  show ?thesis
    using assms seq_continue [where c = "cleanup_step srv doing req listing list_req"
            and f = "\<lambda>_. rest" and n = n and x = x] x
    by (simp add: step)
qed

lemma seq_cleanup_answered:
  assumes "\<forall>m r. \<not> isl (srv m r)"
  shows "outcome (seq (cleanup_step srv doing req listing list_req) (\<lambda>_. rest) n)
           = outcome (rest (Suc (Suc n)))"
proof -
  obtain x where x: "outcome (cleanup_step srv doing req listing list_req n) = Inr x"
    using cleanup_step_answered [OF assms] by blast
  note step = cleanup_step_complete [OF x]
  show ?thesis
    using seq_continue [where c = "cleanup_step srv doing req listing list_req"
            and f = "\<lambda>_. rest" and n = n and x = x] x
    by (simp add: step)
qed

section \<open>The polling loop\<close>

lemma read_status_eq:
  "read_status srv req key n = (outcome (read_status srv req key n), Suc n, [Call req])"
  by (simp add: read_status_def seq_def send_def lookup_def split: sum.splits option.splits)

lemma poll_step:
  "seq (sleep 45000) (\<lambda>_.
     seq (read_status srv req key) (\<lambda>status.
     seq (print (message status)) (\<lambda>_.
     return status))) n
   = (case outcome (read_status srv req key n) of
        Inl e \<Rightarrow> (Inl e, Suc n, [Sleep 45000, Call req])
      | Inr status \<Rightarrow> (Inr status, Suc n, [Sleep 45000, Call req, Print (message status)]))"
proof -
  obtain r where r: "read_status srv req key n = (r, Suc n, [Call req])"
    using read_status_eq by blast
  then show ?thesis
    by (cases r) (simp_all add: seq_def sleep_def print_def return_def)
qed

lemma poll_while_unfold:
  "poll_while srv req key busy message status n =
     (if status = busy then
        (case outcome (read_status srv req key n) of
           Inl e \<Rightarrow> Some (Inl e, Suc n, [Sleep 45000, Call req])
         | Inr status' \<Rightarrow>
             Option.bind (poll_while srv req key busy message status' (Suc n))
               (\<lambda>(r, n'', evs').
                  Some (r, n'', Sleep 45000 # Call req # Print (message status') # evs')))
      else Some (Inr status, n, []))"
  by (subst poll_while.simps) (simp add: poll_step split: sum.splits)

lemma poll_while_idle:
  "status \<noteq> busy \<Longrightarrow> poll_while srv req key busy message status n = Some (Inr status, n, [])"
  by (subst poll_while_unfold) simp

lemma poll_while_returns:
  assumes "\<forall>j<k. outcome (read_status srv req key (n + j)) = Inr busy"
    and "outcome (read_status srv req key (n + k)) = Inr status"
    and "status \<noteq> busy"
  shows "\<exists>evs. poll_while srv req key busy message busy n = Some (Inr status, n + Suc k, evs)
               \<and> calls evs = replicate (Suc k) req
               \<and> sleeps evs = replicate (Suc k) 45000"
  using assms
proof (induction k arbitrary: n)
  case 0
  then show ?case
    by (subst poll_while_unfold) (simp add: poll_while_idle)
next
  case (Suc k)
  have first: "outcome (read_status srv req key n) = Inr busy"
    using Suc.prems(1) by (metis add.right_neutral zero_less_Suc)
  have rest: "\<forall>j<k. outcome (read_status srv req key (Suc n + j)) = Inr busy"
    using Suc.prems(1) by (metis Suc_less_eq add_Suc_shift)
  have last: "outcome (read_status srv req key (Suc n + k)) = Inr status"
    using Suc.prems(2) by simp
  obtain evs where evs: "poll_while srv req key busy message busy (Suc n)
        = Some (Inr status, Suc n + Suc k, evs)"
      "calls evs = replicate (Suc k) req" "sleeps evs = replicate (Suc k) 45000"
    using Suc.IH [OF rest last Suc.prems(3)] by blast
  show ?case
    by (subst poll_while_unfold) (simp add: first evs)
qed

lemma poll_status_unfold:
  "poll_status srv req key busy message n =
     (case outcome (read_status srv req key n) of
        Inl e \<Rightarrow> Some (Inl e, Suc n, [Call req])
      | Inr status \<Rightarrow>
          Option.bind (poll_while srv req key busy message status (Suc n))
            (\<lambda>(r, n'', evs'). Some (r, n'', Call req # evs')))"
proof -
  obtain r where r: "read_status srv req key n = (r, Suc n, [Call req])"
    using read_status_eq by blast
  then show ?thesis
    by (cases r) (simp_all add: poll_status_def)
qed

lemma poll_status_returns:
  assumes "\<forall>j<k. outcome (read_status srv req key (n + j)) = Inr busy"
    and "outcome (read_status srv req key (n + k)) = Inr status"
    and "status \<noteq> busy"
  shows "\<exists>evs. poll_status srv req key busy message n = Some (Inr status, n + Suc k, evs)
               \<and> calls evs = replicate (Suc k) req
               \<and> sleeps evs = replicate k 45000"
proof (cases k)
  case 0
  then show ?thesis using assms
    by (simp add: poll_status_unfold poll_while_idle)
next
  case (Suc k')
  have first: "outcome (read_status srv req key n) = Inr busy"
    using assms(1) Suc by (metis add.right_neutral zero_less_Suc)
  have rest: "\<forall>j<k'. outcome (read_status srv req key (Suc n + j)) = Inr busy"
    using assms(1) Suc by (metis Suc_less_eq add_Suc_shift)
  have last: "outcome (read_status srv req key (Suc n + k')) = Inr status"
    using assms(2) Suc by simp
  obtain evs where evs: "poll_while srv req key busy message busy (Suc n)
        = Some (Inr status, Suc n + Suc k', evs)"
      "calls evs = replicate (Suc k') req" "sleeps evs = replicate (Suc k') 45000"
    using poll_while_returns [OF rest last assms(3)] by blast
  show ?thesis
    by (simp add: poll_status_unfold first evs Suc)
qed

lemma poll_inv_step:
  assumes ih: "\<And>srv req key busy message status n y.
                 f srv req key busy message status n = Some y
                 \<Longrightarrow> poll_inv srv req key busy message status n y"
    and body: "(if status = busy then
        (case seq (sleep 45000) (\<lambda>_.
              seq (read_status srv req key) (\<lambda>status.
              seq (print (message status)) (\<lambda>_.
              return status))) n of
           (Inl e, n', evs) \<Rightarrow> Some (Inl e, n', evs)
         | (Inr status, n', evs) \<Rightarrow>
             Option.bind (f srv req key busy message status n')
               (\<lambda>(r, n'', evs'). Some (r, n'', evs @ evs')))
      else Some (Inr status, n, [])) = Some y"
  shows "poll_inv srv req key busy message status n y"
  unfolding poll_inv_def
proof (intro allI impI)
  fix s n' evs
  assume y: "y = (Inr s, n', evs)"
  show "s \<noteq> busy \<and> n \<le> n'
      \<and> calls evs = replicate (n' - n) req
      \<and> sleeps evs = replicate (n' - n) 45000
      \<and> (\<forall>m. n \<le> m \<and> Suc m < n' \<longrightarrow> outcome (read_status srv req key m) = Inr busy)
      \<and> (if n' = n then s = status
          else status = busy \<and> outcome (read_status srv req key (n' - 1)) = Inr s)"
  proof (cases "status = busy")
    case False
    then show ?thesis using body y by auto
  next
    case True
    show ?thesis
    proof (cases "outcome (read_status srv req key n)")
      case (Inl e)
      then show ?thesis using body y True by (simp add: poll_step)
    next
      case (Inr status')
      have "Option.bind (f srv req key busy message status' (Suc n))
              (\<lambda>(r, n'', evs'). Some (r, n'', [Sleep 45000, Call req, Print (message status')] @ evs'))
            = Some (Inr s, n', evs)"
        using body y True Inr by (simp add: poll_step)
      then obtain evs' where rec: "f srv req key busy message status' (Suc n) = Some (Inr s, n', evs')"
        and evs: "evs = Sleep 45000 # Call req # Print (message status') # evs'"
        by (auto simp: bind_eq_Some_conv)
      have "poll_inv srv req key busy message status' (Suc n) (Inr s, n', evs')"
        using rec by (rule ih)
      then have w: "s \<noteq> busy \<and> Suc n \<le> n'
          \<and> calls evs' = replicate (n' - Suc n) req
          \<and> sleeps evs' = replicate (n' - Suc n) 45000
          \<and> (\<forall>m. Suc n \<le> m \<and> Suc m < n' \<longrightarrow> outcome (read_status srv req key m) = Inr busy)
          \<and> (if n' = Suc n then s = status'
              else status' = busy \<and> outcome (read_status srv req key (n' - 1)) = Inr s)"
        unfolding poll_inv_def by blast
      have le: "Suc n \<le> n'" using w by simp
      have reads: "outcome (read_status srv req key m) = Inr busy" if m: "n \<le> m \<and> Suc m < n'" for m
      proof (cases "m = n")
        case True
        then have "n' \<noteq> Suc n" using m by simp
        then have "status' = busy" using w by simp
        then show ?thesis using Inr \<open>m = n\<close> by simp
      next
        case False
        then have "Suc n \<le> m \<and> Suc m < n'" using m by simp
        then show ?thesis using w by blast
      qed
      have last: "outcome (read_status srv req key (n' - 1)) = Inr s"
      proof (cases "n' = Suc n")
        case True
        then show ?thesis using w Inr by simp
      next
        case False
        then show ?thesis using w by simp
      qed
      have count: "n' - n = Suc (n' - Suc n)" using le by simp
      have "n' \<noteq> n" using le by simp
      then show ?thesis
        using w le reads last True evs by (simp add: count)
    qed
  qed
qed

lemma poll_while_sound:
  assumes run: "poll_while srv req key busy message status n = Some y"
  shows "poll_inv srv req key busy message status n y"
  by (rule poll_while.raw_induct [where P = poll_inv, OF _ run]) (rule poll_inv_step)

lemma poll_status_sound:
  assumes "poll_status srv req key busy message n = Some (Inr s, n', evs)"
  shows "s \<noteq> busy \<and> n < n'
       \<and> outcome (read_status srv req key (n' - 1)) = Inr s
       \<and> (\<forall>m. n \<le> m \<and> Suc m < n' \<longrightarrow> outcome (read_status srv req key m) = Inr busy)
       \<and> calls evs = replicate (n' - n) req
       \<and> sleeps evs = replicate (n' - Suc n) 45000"
proof (cases "outcome (read_status srv req key n)")
  case (Inl e)
  then show ?thesis using assms by (simp add: poll_status_unfold)
next
  case (Inr status)
  have "Option.bind (poll_while srv req key busy message status (Suc n))
          (\<lambda>(r, n'', evs'). Some (r, n'', Call req # evs')) = Some (Inr s, n', evs)"
    using assms Inr by (simp add: poll_status_unfold)
  then obtain evs' where rec: "poll_while srv req key busy message status (Suc n) = Some (Inr s, n', evs')"
    and evs: "evs = Call req # evs'"
    by (auto simp: bind_eq_Some_conv)
  have "poll_inv srv req key busy message status (Suc n) (Inr s, n', evs')"
    using rec by (rule poll_while_sound)
  then have w: "s \<noteq> busy \<and> Suc n \<le> n'
      \<and> calls evs' = replicate (n' - Suc n) req
      \<and> sleeps evs' = replicate (n' - Suc n) 45000
      \<and> (\<forall>m. Suc n \<le> m \<and> Suc m < n' \<longrightarrow> outcome (read_status srv req key m) = Inr busy)
      \<and> (if n' = Suc n then s = status
          else status = busy \<and> outcome (read_status srv req key (n' - 1)) = Inr s)"
    unfolding poll_inv_def by blast
  have le: "Suc n \<le> n'" using w by simp
  have reads: "outcome (read_status srv req key m) = Inr busy" if m: "n \<le> m \<and> Suc m < n'" for m
  proof (cases "m = n")
    case True
    then have "n' \<noteq> Suc n" using m by simp
    then have "status = busy" using w by simp
    then show ?thesis using Inr \<open>m = n\<close> by simp
  next
    case False
    then have "Suc n \<le> m \<and> Suc m < n'" using m by simp
    then show ?thesis using w by blast
  qed
  have last: "outcome (read_status srv req key (n' - 1)) = Inr s"
  proof (cases "n' = Suc n")
    case True
    then show ?thesis using w Inr by simp
  next
    case False
    then show ?thesis using w by simp
  qed
  have count: "n' - n = Suc (n' - Suc n)" using le by simp
  show ?thesis
    using w le reads last evs by (simp add: count)
qed


lemma then_cell_returned:
  "polling n = Some (Inr status, n', evs) \<Longrightarrow>
   then_cell polling next n = Some (outcome (next n'), sent (next n'), evs @ trace (next n'))"
  by (cases "next n'") (simp add: then_cell_def)

lemma seq_send_first_call:
  "\<exists>rest. calls (trace (seq (send srv req) f m)) = req # rest"
proof (cases "srv m req")
  case (Inl e)
  then show ?thesis by (simp add: seq_def send_def)
next
  case (Inr x)
  then show ?thesis by (cases "f x (Suc m)") (simp add: seq_def send_def)
qed

lemma baselining_cell_first_call:
  "\<exists>rest. calls (trace (baselining_cell srv job_name m)) = suggest_baseline job_name # rest"
  unfolding baselining_cell_def by (rule seq_send_first_call)

lemma monitoring_schedule_cell_first_call:
  "\<exists>rest. calls (trace (monitoring_schedule_cell srv monitor_schedule_name endpoint m))
            = baseline_statistics # rest"
  unfolding monitoring_schedule_cell_def by (rule seq_send_first_call)

lemma take_after_replicate:
  "calls evs = replicate k req \<Longrightarrow> calls evs' = first # rest \<Longrightarrow>
   take (Suc k) (calls (evs @ evs')) = replicate k req @ [first]"
  by (simp add: calls_append)

section \<open>Provisioning\<close>

text \<open>
  C5. The provisioner sends \<open>create_model\<close>, then \<open>create_endpoint_config\<close>, then
  \<open>create_endpoint\<close>, and nothing else: in every run the requests sent are a prefix of these
  three, so no delete is ever sent. If a create request raises, the run ends with that exception
  and the requests sent are the creates up to and including the failing one. If all three
  return, the value of the run is the three identifiers read from the responses.
\<close>

theorem provision_order_without_compensation:
  "prefix (calls (trace (provision srv role capture_uri n)))
     [create_model MODEL_NAME MODEL_PACKAGE_ARN role,
      create_endpoint_config MODEL_ENDPOINT_CONFIG MODEL_NAME capture_uri,
      create_endpoint MODEL_ENDPOINT MODEL_ENDPOINT_CONFIG]
   \<and> (srv n (create_model MODEL_NAME MODEL_PACKAGE_ARN role) = Inl e
      \<longrightarrow> outcome (provision srv role capture_uri n) = Inl e
        \<and> calls (trace (provision srv role capture_uri n))
            = [create_model MODEL_NAME MODEL_PACKAGE_ARN role])
   \<and> (srv n (create_model MODEL_NAME MODEL_PACKAGE_ARN role) = Inr r1
        \<and> r1 ''ModelArn'' = Some model_arn
        \<and> srv (Suc n) (create_endpoint_config MODEL_ENDPOINT_CONFIG MODEL_NAME capture_uri) = Inl e
      \<longrightarrow> outcome (provision srv role capture_uri n) = Inl e
        \<and> calls (trace (provision srv role capture_uri n))
            = [create_model MODEL_NAME MODEL_PACKAGE_ARN role,
               create_endpoint_config MODEL_ENDPOINT_CONFIG MODEL_NAME capture_uri])
   \<and> (srv n (create_model MODEL_NAME MODEL_PACKAGE_ARN role) = Inr r1
        \<and> r1 ''ModelArn'' = Some model_arn
        \<and> srv (Suc n) (create_endpoint_config MODEL_ENDPOINT_CONFIG MODEL_NAME capture_uri) = Inr r2
        \<and> r2 ''EndpointConfigArn'' = Some endpoint_config_arn
        \<and> srv (Suc (Suc n)) (create_endpoint MODEL_ENDPOINT MODEL_ENDPOINT_CONFIG) = Inl e
      \<longrightarrow> outcome (provision srv role capture_uri n) = Inl e
        \<and> calls (trace (provision srv role capture_uri n))
            = [create_model MODEL_NAME MODEL_PACKAGE_ARN role,
               create_endpoint_config MODEL_ENDPOINT_CONFIG MODEL_NAME capture_uri,
               create_endpoint MODEL_ENDPOINT MODEL_ENDPOINT_CONFIG])
   \<and> (srv n (create_model MODEL_NAME MODEL_PACKAGE_ARN role) = Inr r1
        \<and> r1 ''ModelArn'' = Some model_arn
        \<and> srv (Suc n) (create_endpoint_config MODEL_ENDPOINT_CONFIG MODEL_NAME capture_uri) = Inr r2
        \<and> r2 ''EndpointConfigArn'' = Some endpoint_config_arn
        \<and> srv (Suc (Suc n)) (create_endpoint MODEL_ENDPOINT MODEL_ENDPOINT_CONFIG) = Inr r3
        \<and> r3 ''EndpointArn'' = Some endpoint_arn
      \<longrightarrow> outcome (provision srv role capture_uri n)
            = Inr (model_arn, endpoint_config_arn, endpoint_arn)
        \<and> calls (trace (provision srv role capture_uri n))
            = [create_model MODEL_NAME MODEL_PACKAGE_ARN role,
               create_endpoint_config MODEL_ENDPOINT_CONFIG MODEL_NAME capture_uri,
               create_endpoint MODEL_ENDPOINT MODEL_ENDPOINT_CONFIG])"
  by (simp add: provision_def seq_def send_def lookup_def print_def return_def
        split: sum.splits option.splits)


theorem provision_order_without_compensation_witness:
  "provision (creation_fails_at 0) ''role'' ''s3://bucket/datacapture'' 0
     = (Inl (ClientError ''ResourceLimitExceeded''), 1,
        [Call (create_model MODEL_NAME MODEL_PACKAGE_ARN ''role'')])
   \<and> outcome (provision (creation_fails_at 1) ''role'' ''s3://bucket/datacapture'' 0)
     = Inl (ClientError ''ResourceLimitExceeded'')
   \<and> calls (trace (provision (creation_fails_at 1) ''role'' ''s3://bucket/datacapture'' 0))
     = [create_model MODEL_NAME MODEL_PACKAGE_ARN ''role'',
        create_endpoint_config MODEL_ENDPOINT_CONFIG MODEL_NAME ''s3://bucket/datacapture'']
   \<and> outcome (provision (creation_fails_at 2) ''role'' ''s3://bucket/datacapture'' 0)
     = Inl (ClientError ''ResourceLimitExceeded'')
   \<and> calls (trace (provision (creation_fails_at 2) ''role'' ''s3://bucket/datacapture'' 0))
     = [create_model MODEL_NAME MODEL_PACKAGE_ARN ''role'',
        create_endpoint_config MODEL_ENDPOINT_CONFIG MODEL_NAME ''s3://bucket/datacapture'',
        create_endpoint MODEL_ENDPOINT MODEL_ENDPOINT_CONFIG]
   \<and> outcome (provision (creation_fails_at 3) ''role'' ''s3://bucket/datacapture'' 0)
     = Inr (''arn:model'', ''arn:endpoint-config'', ''arn:endpoint'')
   \<and> calls (trace (provision (creation_fails_at 3) ''role'' ''s3://bucket/datacapture'' 0))
     = [create_model MODEL_NAME MODEL_PACKAGE_ARN ''role'',
        create_endpoint_config MODEL_ENDPOINT_CONFIG MODEL_NAME ''s3://bucket/datacapture'',
        create_endpoint MODEL_ENDPOINT MODEL_ENDPOINT_CONFIG]"
proof -
  let ?arns = "[''ModelArn'' \<mapsto> ''arn:model'', ''EndpointConfigArn'' \<mapsto> ''arn:endpoint-config'',
                ''EndpointArn'' \<mapsto> ''arn:endpoint'']"
  let ?e = "ClientError ''ResourceLimitExceeded''"
  have model_fails: "outcome (provision (creation_fails_at 0) ''role'' ''s3://bucket/datacapture'' 0)
        = Inl ?e
      \<and> calls (trace (provision (creation_fails_at 0) ''role'' ''s3://bucket/datacapture'' 0))
        = [create_model MODEL_NAME MODEL_PACKAGE_ARN ''role'']"
    using provision_order_without_compensation
            [where srv = "creation_fails_at 0" and n = 0 and e = ?e and role = "''role''"
               and capture_uri = "''s3://bucket/datacapture''"]
    by (simp add: creation_fails_at_def)
  have config_fails: "outcome (provision (creation_fails_at 1) ''role'' ''s3://bucket/datacapture'' 0)
        = Inl ?e
      \<and> calls (trace (provision (creation_fails_at 1) ''role'' ''s3://bucket/datacapture'' 0))
        = [create_model MODEL_NAME MODEL_PACKAGE_ARN ''role'',
           create_endpoint_config MODEL_ENDPOINT_CONFIG MODEL_NAME ''s3://bucket/datacapture'']"
    using provision_order_without_compensation
            [where srv = "creation_fails_at 1" and n = 0 and e = ?e and role = "''role''"
               and capture_uri = "''s3://bucket/datacapture''" and ?r1.0 = ?arns
               and model_arn = "''arn:model''"]
    by (simp add: creation_fails_at_def)
  have endpoint_fails: "outcome (provision (creation_fails_at 2) ''role'' ''s3://bucket/datacapture'' 0)
        = Inl ?e
      \<and> calls (trace (provision (creation_fails_at 2) ''role'' ''s3://bucket/datacapture'' 0))
        = [create_model MODEL_NAME MODEL_PACKAGE_ARN ''role'',
           create_endpoint_config MODEL_ENDPOINT_CONFIG MODEL_NAME ''s3://bucket/datacapture'',
           create_endpoint MODEL_ENDPOINT MODEL_ENDPOINT_CONFIG]"
    using provision_order_without_compensation
            [where srv = "creation_fails_at 2" and n = 0 and e = ?e and role = "''role''"
               and capture_uri = "''s3://bucket/datacapture''" and ?r1.0 = ?arns
               and model_arn = "''arn:model''" and ?r2.0 = ?arns
               and endpoint_config_arn = "''arn:endpoint-config''"]
    by (simp add: creation_fails_at_def)
  have all_created: "outcome (provision (creation_fails_at 3) ''role'' ''s3://bucket/datacapture'' 0)
        = Inr (''arn:model'', ''arn:endpoint-config'', ''arn:endpoint'')
      \<and> calls (trace (provision (creation_fails_at 3) ''role'' ''s3://bucket/datacapture'' 0))
        = [create_model MODEL_NAME MODEL_PACKAGE_ARN ''role'',
           create_endpoint_config MODEL_ENDPOINT_CONFIG MODEL_NAME ''s3://bucket/datacapture'',
           create_endpoint MODEL_ENDPOINT MODEL_ENDPOINT_CONFIG]"
    using provision_order_without_compensation
            [where srv = "creation_fails_at 3" and n = 0 and role = "''role''"
               and capture_uri = "''s3://bucket/datacapture''" and ?r1.0 = ?arns
               and model_arn = "''arn:model''" and ?r2.0 = ?arns
               and endpoint_config_arn = "''arn:endpoint-config''" and ?r3.0 = ?arns
               and endpoint_arn = "''arn:endpoint''"]
    by (simp add: creation_fails_at_def)
  have first: "provision (creation_fails_at 0) ''role'' ''s3://bucket/datacapture'' 0
     = (Inl ?e, 1, [Call (create_model MODEL_NAME MODEL_PACKAGE_ARN ''role'')])"
    by (simp add: provision_def seq_def send_def creation_fails_at_def)
  show ?thesis
    using model_fails config_fails endpoint_fails all_created first by blast
qed

section \<open>Teardown\<close>

text \<open>
  C3. A run of the teardown that completes has one fixed sequence of effects, whatever the
  control plane answers: stop-monitoring-schedule, delete-monitoring-schedule, delete-endpoint,
  delete-endpoint-config and delete-model are the five requests that change resources, in this
  order; each is followed by a sleep of 30 seconds and a listing whose response nothing reads,
  so the next operation is sent without any check that the previous one has completed. The
  teardown completes whenever every request is answered.
\<close>

theorem teardown_five_operations_in_order:
  "(outcome (teardown srv n) = Inr () \<longrightarrow>
      trace (teardown srv n)
        = [Print ''Stopping monitoring schedule...'',
           Call (stop_monitoring_schedule MODEL_MONITOR_SCHEDULE_NAME),
           Sleep 30000,
           Print ''Listing monitoring schedules'',
           Call (list_monitoring_schedules MODEL_ENDPOINT),
           Print ''Deleting monitoring schedule...'',
           Call (delete_monitoring_schedule MODEL_MONITOR_SCHEDULE_NAME),
           Sleep 30000,
           Print ''Listing monitoring schedules'',
           Call (list_monitoring_schedules MODEL_ENDPOINT),
           Print ''Deleting model endpoint...'',
           Call (delete_endpoint MODEL_ENDPOINT),
           Sleep 30000,
           Print ''Listing model endpoints'',
           Call (list_endpoints MODEL_ENDPOINT),
           Print ''Deleting model endpoint config...'',
           Call (delete_endpoint_config MODEL_ENDPOINT_CONFIG),
           Sleep 30000,
           Print ''Listing model endpoint configs'',
           Call (list_endpoint_configs MODEL_ENDPOINT_CONFIG),
           Print ''Deleting model...'',
           Call (delete_model MODEL_NAME),
           Sleep 30000,
           Print ''Listing models'',
           Call (list_models MODEL_NAME)]
      \<and> filter changes_resources (calls (trace (teardown srv n)))
        = [stop_monitoring_schedule MODEL_MONITOR_SCHEDULE_NAME,
           delete_monitoring_schedule MODEL_MONITOR_SCHEDULE_NAME,
           delete_endpoint MODEL_ENDPOINT,
           delete_endpoint_config MODEL_ENDPOINT_CONFIG,
           delete_model MODEL_NAME]
      \<and> sleeps (trace (teardown srv n)) = [30000, 30000, 30000, 30000, 30000]
      \<and> sent (teardown srv n) = n + 10)
   \<and> ((\<forall>m r. \<not> isl (srv m r)) \<longrightarrow> outcome (teardown srv n) = Inr ())"
proof (intro conjI impI)
  assume "\<forall>m r. \<not> isl (srv m r)"
  then show "outcome (teardown srv n) = Inr ()"
    by (simp add: teardown_def seq_cleanup_answered return_def)
next
  assume complete: "outcome (teardown srv n) = Inr ()"
  note s1 = seq_cleanup_complete [OF complete [unfolded teardown_def]]
  note s2 = seq_cleanup_complete [OF s1 [THEN conjunct1]]
  note s3 = seq_cleanup_complete [OF s2 [THEN conjunct1]]
  note s4 = seq_cleanup_complete [OF s3 [THEN conjunct1]]
  note s5 = seq_cleanup_complete [OF s4 [THEN conjunct1]]
  show t: "trace (teardown srv n)
        = [Print ''Stopping monitoring schedule...'',
           Call (stop_monitoring_schedule MODEL_MONITOR_SCHEDULE_NAME),
           Sleep 30000,
           Print ''Listing monitoring schedules'',
           Call (list_monitoring_schedules MODEL_ENDPOINT),
           Print ''Deleting monitoring schedule...'',
           Call (delete_monitoring_schedule MODEL_MONITOR_SCHEDULE_NAME),
           Sleep 30000,
           Print ''Listing monitoring schedules'',
           Call (list_monitoring_schedules MODEL_ENDPOINT),
           Print ''Deleting model endpoint...'',
           Call (delete_endpoint MODEL_ENDPOINT),
           Sleep 30000,
           Print ''Listing model endpoints'',
           Call (list_endpoints MODEL_ENDPOINT),
           Print ''Deleting model endpoint config...'',
           Call (delete_endpoint_config MODEL_ENDPOINT_CONFIG),
           Sleep 30000,
           Print ''Listing model endpoint configs'',
           Call (list_endpoint_configs MODEL_ENDPOINT_CONFIG),
           Print ''Deleting model...'',
           Call (delete_model MODEL_NAME),
           Sleep 30000,
           Print ''Listing models'',
           Call (list_models MODEL_NAME)]"
    unfolding teardown_def
    by (simp only: s1 [THEN conjunct2, THEN conjunct1] s2 [THEN conjunct2, THEN conjunct1]
          s3 [THEN conjunct2, THEN conjunct1] s4 [THEN conjunct2, THEN conjunct1]
          s5 [THEN conjunct2, THEN conjunct1])
       (simp add: return_def)
  show "filter changes_resources (calls (trace (teardown srv n)))
        = [stop_monitoring_schedule MODEL_MONITOR_SCHEDULE_NAME,
           delete_monitoring_schedule MODEL_MONITOR_SCHEDULE_NAME,
           delete_endpoint MODEL_ENDPOINT,
           delete_endpoint_config MODEL_ENDPOINT_CONFIG,
           delete_model MODEL_NAME]"
    by (simp only: t) simp
  show "sleeps (trace (teardown srv n)) = [30000, 30000, 30000, 30000, 30000]"
    by (simp only: t) simp
  show "sent (teardown srv n) = n + 10"
    unfolding teardown_def
    by (simp only: s1 [THEN conjunct2, THEN conjunct2] s2 [THEN conjunct2, THEN conjunct2]
          s3 [THEN conjunct2, THEN conjunct2] s4 [THEN conjunct2, THEN conjunct2]
          s5 [THEN conjunct2, THEN conjunct2])
       (simp add: return_def)
qed

theorem teardown_five_operations_in_order_witness:
  "outcome (teardown acknowledging_service 0) = Inr ()
   \<and> filter changes_resources (calls (trace (teardown acknowledging_service 0)))
        = [stop_monitoring_schedule MODEL_MONITOR_SCHEDULE_NAME,
           delete_monitoring_schedule MODEL_MONITOR_SCHEDULE_NAME,
           delete_endpoint MODEL_ENDPOINT,
           delete_endpoint_config MODEL_ENDPOINT_CONFIG,
           delete_model MODEL_NAME]
   \<and> sleeps (trace (teardown acknowledging_service 0)) = [30000, 30000, 30000, 30000, 30000]
   \<and> sent (teardown acknowledging_service 0) = 10"
proof -
  have answered: "\<forall>m r. \<not> isl (acknowledging_service m r)"
    by (simp add: acknowledging_service_def)
  have complete: "outcome (teardown acknowledging_service 0) = Inr ()"
    using teardown_five_operations_in_order [of acknowledging_service 0] answered by blast
  show ?thesis
    using teardown_five_operations_in_order [of acknowledging_service 0] complete by simp
qed

section \<open>Status poller\<close>

text \<open>
  C2. When a polling cell returns, the status it returns is not the in-progress status
  (\<^verbatim>\<open>Creating\<close> for the endpoint, \<^verbatim>\<open>InProgress\<close> for the baselining job), it is the status
  read by the last request of the cell, and every earlier request of the cell read the
  in-progress status: the cell did not return before, and it slept 45 seconds before each
  request but the first.
\<close>

theorem poll_returns_only_after_leaving_in_progress:
  "(wait_endpoint srv n = Some (Inr status, n', evs) \<longrightarrow>
      status \<noteq> ''Creating'' \<and> n < n'
      \<and> outcome (read_status srv (describe_endpoint MODEL_ENDPOINT) ''EndpointStatus'' (n' - 1))
          = Inr status
      \<and> (\<forall>m. n \<le> m \<and> Suc m < n' \<longrightarrow>
            outcome (read_status srv (describe_endpoint MODEL_ENDPOINT) ''EndpointStatus'' m)
              = Inr ''Creating'')
      \<and> calls evs = replicate (n' - n) (describe_endpoint MODEL_ENDPOINT)
      \<and> sleeps evs = replicate (n' - Suc n) 45000)
   \<and> (wait_processing_job srv job_name n = Some (Inr status, n', evs) \<longrightarrow>
      status \<noteq> ''InProgress'' \<and> n < n'
      \<and> outcome (read_status srv (describe_processing_job job_name) ''ProcessingJobStatus''
                   (n' - 1))
          = Inr status
      \<and> (\<forall>m. n \<le> m \<and> Suc m < n' \<longrightarrow>
            outcome (read_status srv (describe_processing_job job_name) ''ProcessingJobStatus'' m)
              = Inr ''InProgress'')
      \<and> calls evs = replicate (n' - n) (describe_processing_job job_name)
      \<and> sleeps evs = replicate (n' - Suc n) 45000)"
  (is "(?endpoint_returned \<longrightarrow> ?endpoint_left) \<and> (?job_returned \<longrightarrow> ?job_left)")
proof -
  have "?endpoint_left" if "?endpoint_returned"
    using that unfolding wait_endpoint_def by (rule poll_status_sound)
  moreover have "?job_left" if "?job_returned"
    using that unfolding wait_processing_job_def by (rule poll_status_sound)
  ultimately show ?thesis by blast
qed

theorem poll_returns_only_after_leaving_in_progress_witness:
  "map_option outcome (wait_endpoint endpoint_comes_up 0) = Some (Inr ''InService'')
   \<and> map_option sent (wait_endpoint endpoint_comes_up 0) = Some 3
   \<and> outcome (read_status endpoint_comes_up (describe_endpoint MODEL_ENDPOINT)
                ''EndpointStatus'' 2) = Inr ''InService''
   \<and> outcome (read_status endpoint_comes_up (describe_endpoint MODEL_ENDPOINT)
                ''EndpointStatus'' 1) = Inr ''Creating''
   \<and> outcome (read_status endpoint_comes_up (describe_endpoint MODEL_ENDPOINT)
                ''EndpointStatus'' 0) = Inr ''Creating''
   \<and> map_option outcome (wait_processing_job endpoint_comes_up ''baseline-job'' 0)
       = Some (Inr ''Completed'')
   \<and> map_option sent (wait_processing_job endpoint_comes_up ''baseline-job'' 0) = Some 3
   \<and> outcome (read_status endpoint_comes_up (describe_processing_job ''baseline-job'')
                ''ProcessingJobStatus'' 2) = Inr ''Completed''
   \<and> outcome (read_status endpoint_comes_up (describe_processing_job ''baseline-job'')
                ''ProcessingJobStatus'' 1) = Inr ''InProgress''"
proof -
  have busy: "\<forall>j<2. outcome (read_status endpoint_comes_up (describe_endpoint MODEL_ENDPOINT)
                 ''EndpointStatus'' (0 + j)) = Inr ''Creating''"
    by (simp add: read_status_def seq_def send_def lookup_def endpoint_comes_up_def)
  have up: "outcome (read_status endpoint_comes_up (describe_endpoint MODEL_ENDPOINT)
                 ''EndpointStatus'' (0 + 2)) = Inr ''InService''"
    by (simp add: read_status_def seq_def send_def lookup_def endpoint_comes_up_def)
  have "''InService'' \<noteq> ''Creating''" by simp
  from poll_status_returns [OF busy up this]
  obtain evs where run: "wait_endpoint endpoint_comes_up 0 = Some (Inr ''InService'', 3, evs)"
    unfolding wait_endpoint_def by (auto simp: numeral_3_eq_3)
  note sound = poll_returns_only_after_leaving_in_progress
                 [of endpoint_comes_up 0 "''InService''" 3 evs, THEN conjunct1, rule_format, OF run]
  have endpoint: "outcome (read_status endpoint_comes_up (describe_endpoint MODEL_ENDPOINT)
                ''EndpointStatus'' 2) = Inr ''InService''
     \<and> outcome (read_status endpoint_comes_up (describe_endpoint MODEL_ENDPOINT)
                ''EndpointStatus'' 1) = Inr ''Creating''
     \<and> outcome (read_status endpoint_comes_up (describe_endpoint MODEL_ENDPOINT)
                ''EndpointStatus'' 0) = Inr ''Creating''"
    using sound by simp
  have working: "\<forall>j<2. outcome (read_status endpoint_comes_up
                 (describe_processing_job ''baseline-job'') ''ProcessingJobStatus'' (0 + j))
               = Inr ''InProgress''"
    by (simp add: read_status_def seq_def send_def lookup_def endpoint_comes_up_def)
  have completed: "outcome (read_status endpoint_comes_up
                 (describe_processing_job ''baseline-job'') ''ProcessingJobStatus'' (0 + 2))
               = Inr ''Completed''"
    by (simp add: read_status_def seq_def send_def lookup_def endpoint_comes_up_def)
  have "''Completed'' \<noteq> ''InProgress''" by simp
  from poll_status_returns [OF working completed this]
  obtain evs' where run': "wait_processing_job endpoint_comes_up ''baseline-job'' 0
        = Some (Inr ''Completed'', 3, evs')"
    unfolding wait_processing_job_def by (auto simp: numeral_3_eq_3)
  note sound' = poll_returns_only_after_leaving_in_progress
                 [where srv = endpoint_comes_up and job_name = "''baseline-job''" and n = 0
                    and status = "''Completed''" and ?n' = 3 and evs = evs',
                  THEN conjunct2, rule_format, OF run']
  have job: "outcome (read_status endpoint_comes_up (describe_processing_job ''baseline-job'')
                ''ProcessingJobStatus'' 2) = Inr ''Completed''
     \<and> outcome (read_status endpoint_comes_up (describe_processing_job ''baseline-job'')
                ''ProcessingJobStatus'' 1) = Inr ''InProgress''"
    using sound' by simp
  show ?thesis using run run' endpoint job by simp
qed

text \<open>
  C10. When the requests of a polling cell read the in-progress status \<open>k\<close> times and then
  any other status, \<^verbatim>\<open>Failed\<close> included, the cell returns that status normally after
  \<open>k + 1\<close> requests, and the run goes on with the next cell, whose first request follows the
  last poll: \<open>suggest_baseline\<close> after the endpoint poll, \<open>baseline_statistics\<close> (for the
  monitoring schedule) after the job poll.
\<close>

theorem any_other_status_ends_poll_normally:
  "((\<forall>j<k. outcome (read_status srv (describe_endpoint MODEL_ENDPOINT) ''EndpointStatus'' (n + j))
              = Inr ''Creating'')
      \<and> outcome (read_status srv (describe_endpoint MODEL_ENDPOINT) ''EndpointStatus'' (n + k))
          = Inr status
      \<and> status \<noteq> ''Creating''
    \<longrightarrow> (\<exists>evs. wait_endpoint srv n = Some (Inr status, n + Suc k, evs)
           \<and> calls evs = replicate (Suc k) (describe_endpoint MODEL_ENDPOINT)
           \<and> sleeps evs = replicate k 45000
           \<and> endpoint_then_baseline srv job_name n
               = Some (outcome (baselining_cell srv job_name (n + Suc k)),
                       sent (baselining_cell srv job_name (n + Suc k)),
                       evs @ trace (baselining_cell srv job_name (n + Suc k)))
           \<and> take (Suc (Suc k)) (calls (evs @ trace (baselining_cell srv job_name (n + Suc k))))
               = replicate (Suc k) (describe_endpoint MODEL_ENDPOINT)
                   @ [suggest_baseline job_name]))
   \<and> ((\<forall>j<k. outcome (read_status srv (describe_processing_job job_name)
                        ''ProcessingJobStatus'' (n + j))
              = Inr ''InProgress'')
      \<and> outcome (read_status srv (describe_processing_job job_name) ''ProcessingJobStatus''
                   (n + k))
          = Inr status
      \<and> status \<noteq> ''InProgress''
    \<longrightarrow> (\<exists>evs. wait_processing_job srv job_name n = Some (Inr status, n + Suc k, evs)
           \<and> calls evs = replicate (Suc k) (describe_processing_job job_name)
           \<and> sleeps evs = replicate k 45000
           \<and> baseline_then_schedule srv job_name monitor_schedule_name endpoint n
               = Some (outcome (monitoring_schedule_cell srv monitor_schedule_name endpoint
                                  (n + Suc k)),
                       sent (monitoring_schedule_cell srv monitor_schedule_name endpoint
                               (n + Suc k)),
                       evs @ trace (monitoring_schedule_cell srv monitor_schedule_name endpoint
                                      (n + Suc k)))
           \<and> take (Suc (Suc k))
                (calls (evs @ trace (monitoring_schedule_cell srv monitor_schedule_name endpoint
                                       (n + Suc k))))
               = replicate (Suc k) (describe_processing_job job_name) @ [baseline_statistics]))"
proof (intro conjI impI)
  assume a: "(\<forall>j<k. outcome (read_status srv (describe_endpoint MODEL_ENDPOINT) ''EndpointStatus'' (n + j))
              = Inr ''Creating'')
      \<and> outcome (read_status srv (describe_endpoint MODEL_ENDPOINT) ''EndpointStatus'' (n + k))
          = Inr status
      \<and> status \<noteq> ''Creating''"
  then obtain evs where run: "wait_endpoint srv n = Some (Inr status, n + Suc k, evs)"
    and c: "calls evs = replicate (Suc k) (describe_endpoint MODEL_ENDPOINT)"
    and s: "sleeps evs = replicate k 45000"
    unfolding wait_endpoint_def
    using poll_status_returns [of k srv "describe_endpoint MODEL_ENDPOINT" "''EndpointStatus''" n
            "''Creating''" status]
    by blast
  obtain rest where first: "calls (trace (baselining_cell srv job_name (n + Suc k)))
        = suggest_baseline job_name # rest"
    using baselining_cell_first_call by blast
  have "endpoint_then_baseline srv job_name n
               = Some (outcome (baselining_cell srv job_name (n + Suc k)),
                       sent (baselining_cell srv job_name (n + Suc k)),
                       evs @ trace (baselining_cell srv job_name (n + Suc k)))"
    unfolding endpoint_then_baseline_def using run by (rule then_cell_returned)
  moreover have "take (Suc (Suc k)) (calls (evs @ trace (baselining_cell srv job_name (n + Suc k))))
               = replicate (Suc k) (describe_endpoint MODEL_ENDPOINT) @ [suggest_baseline job_name]"
    using c first by (rule take_after_replicate)
  ultimately show "\<exists>evs. wait_endpoint srv n = Some (Inr status, n + Suc k, evs)
           \<and> calls evs = replicate (Suc k) (describe_endpoint MODEL_ENDPOINT)
           \<and> sleeps evs = replicate k 45000
           \<and> endpoint_then_baseline srv job_name n
               = Some (outcome (baselining_cell srv job_name (n + Suc k)),
                       sent (baselining_cell srv job_name (n + Suc k)),
                       evs @ trace (baselining_cell srv job_name (n + Suc k)))
           \<and> take (Suc (Suc k)) (calls (evs @ trace (baselining_cell srv job_name (n + Suc k))))
               = replicate (Suc k) (describe_endpoint MODEL_ENDPOINT)
                   @ [suggest_baseline job_name]"
    using run c s by blast
next
  assume a: "(\<forall>j<k. outcome (read_status srv (describe_processing_job job_name)
                        ''ProcessingJobStatus'' (n + j))
              = Inr ''InProgress'')
      \<and> outcome (read_status srv (describe_processing_job job_name) ''ProcessingJobStatus''
                   (n + k))
          = Inr status
      \<and> status \<noteq> ''InProgress''"
  then obtain evs where run: "wait_processing_job srv job_name n = Some (Inr status, n + Suc k, evs)"
    and c: "calls evs = replicate (Suc k) (describe_processing_job job_name)"
    and s: "sleeps evs = replicate k 45000"
    unfolding wait_processing_job_def
    using poll_status_returns [of k srv "describe_processing_job job_name"
            "''ProcessingJobStatus''" n "''InProgress''" status]
    by blast
  obtain rest where first:
    "calls (trace (monitoring_schedule_cell srv monitor_schedule_name endpoint (n + Suc k)))
        = baseline_statistics # rest"
    using monitoring_schedule_cell_first_call by blast
  have "baseline_then_schedule srv job_name monitor_schedule_name endpoint n
               = Some (outcome (monitoring_schedule_cell srv monitor_schedule_name endpoint
                                  (n + Suc k)),
                       sent (monitoring_schedule_cell srv monitor_schedule_name endpoint
                               (n + Suc k)),
                       evs @ trace (monitoring_schedule_cell srv monitor_schedule_name endpoint
                                      (n + Suc k)))"
    unfolding baseline_then_schedule_def using run by (rule then_cell_returned)
  moreover have "take (Suc (Suc k))
                (calls (evs @ trace (monitoring_schedule_cell srv monitor_schedule_name endpoint
                                       (n + Suc k))))
               = replicate (Suc k) (describe_processing_job job_name) @ [baseline_statistics]"
    using c first by (rule take_after_replicate)
  ultimately show "\<exists>evs. wait_processing_job srv job_name n = Some (Inr status, n + Suc k, evs)
           \<and> calls evs = replicate (Suc k) (describe_processing_job job_name)
           \<and> sleeps evs = replicate k 45000
           \<and> baseline_then_schedule srv job_name monitor_schedule_name endpoint n
               = Some (outcome (monitoring_schedule_cell srv monitor_schedule_name endpoint
                                  (n + Suc k)),
                       sent (monitoring_schedule_cell srv monitor_schedule_name endpoint
                               (n + Suc k)),
                       evs @ trace (monitoring_schedule_cell srv monitor_schedule_name endpoint
                                      (n + Suc k)))
           \<and> take (Suc (Suc k))
                (calls (evs @ trace (monitoring_schedule_cell srv monitor_schedule_name endpoint
                                       (n + Suc k))))
               = replicate (Suc k) (describe_processing_job job_name) @ [baseline_statistics]"
    using run c s by blast
qed


theorem any_other_status_ends_poll_normally_witness:
  "map_option outcome (wait_endpoint polls_end_in_failure 0) = Some (Inr ''Failed'')
   \<and> map_option sent (wait_endpoint polls_end_in_failure 0) = Some 3
   \<and> map_option outcome (endpoint_then_baseline polls_end_in_failure ''baseline-job'' 0)
       = Some (Inr ())
   \<and> map_option (calls \<circ> trace) (endpoint_then_baseline polls_end_in_failure ''baseline-job'' 0)
       = Some [describe_endpoint MODEL_ENDPOINT, describe_endpoint MODEL_ENDPOINT,
               describe_endpoint MODEL_ENDPOINT, suggest_baseline ''baseline-job'',
               wait_for_job ''baseline-job'']
   \<and> map_option outcome (wait_processing_job polls_end_in_failure ''baseline-job'' 0)
       = Some (Inr ''Failed'')
   \<and> map_option outcome
         (baseline_then_schedule polls_end_in_failure ''baseline-job''
            MODEL_MONITOR_SCHEDULE_NAME MODEL_ENDPOINT 0)
       = Some (Inr ())
   \<and> map_option (calls \<circ> trace)
         (baseline_then_schedule polls_end_in_failure ''baseline-job''
            MODEL_MONITOR_SCHEDULE_NAME MODEL_ENDPOINT 0)
       = Some [describe_processing_job ''baseline-job'', describe_processing_job ''baseline-job'',
               describe_processing_job ''baseline-job'', baseline_statistics,
               suggested_constraints,
               create_monitoring_schedule MODEL_MONITOR_SCHEDULE_NAME MODEL_ENDPOINT,
               describe_schedule]"
proof -
  have h: "(\<forall>j<2. outcome (read_status polls_end_in_failure (describe_endpoint MODEL_ENDPOINT)
                        ''EndpointStatus'' (0 + j)) = Inr ''Creating'')
      \<and> outcome (read_status polls_end_in_failure (describe_endpoint MODEL_ENDPOINT)
                   ''EndpointStatus'' (0 + 2)) = Inr ''Failed''
      \<and> ''Failed'' \<noteq> ''Creating''"
    by (simp add: read_status_def seq_def send_def lookup_def polls_end_in_failure_def)
  have next_cell: "baselining_cell polls_end_in_failure ''baseline-job'' m
      = (Inr (), Suc (Suc m),
         [Call (suggest_baseline ''baseline-job''), Call (wait_for_job ''baseline-job'')])" for m
    by (simp add: baselining_cell_def seq_def send_def return_def polls_end_in_failure_def)
  from any_other_status_ends_poll_normally
         [where k = 2 and srv = polls_end_in_failure and n = 0 and status = "''Failed''"
            and job_name = "''baseline-job''", THEN conjunct1, rule_format, OF h]
  obtain evs where "wait_endpoint polls_end_in_failure 0 = Some (Inr ''Failed'', 0 + Suc 2, evs)"
    and "calls evs = replicate (Suc 2) (describe_endpoint MODEL_ENDPOINT)"
    and "endpoint_then_baseline polls_end_in_failure ''baseline-job'' 0
           = Some (outcome (baselining_cell polls_end_in_failure ''baseline-job'' (0 + Suc 2)),
                   sent (baselining_cell polls_end_in_failure ''baseline-job'' (0 + Suc 2)),
                   evs @ trace (baselining_cell polls_end_in_failure ''baseline-job'' (0 + Suc 2)))"
    by blast
  then have endpoint:
    "map_option outcome (wait_endpoint polls_end_in_failure 0) = Some (Inr ''Failed'')
     \<and> map_option sent (wait_endpoint polls_end_in_failure 0) = Some 3
     \<and> map_option outcome (endpoint_then_baseline polls_end_in_failure ''baseline-job'' 0)
         = Some (Inr ())
     \<and> map_option (calls \<circ> trace) (endpoint_then_baseline polls_end_in_failure ''baseline-job'' 0)
         = Some [describe_endpoint MODEL_ENDPOINT, describe_endpoint MODEL_ENDPOINT,
                 describe_endpoint MODEL_ENDPOINT, suggest_baseline ''baseline-job'',
                 wait_for_job ''baseline-job'']"
    by (simp add: next_cell calls_append numeral_3_eq_3)
  have h': "(\<forall>j<2. outcome (read_status polls_end_in_failure
                        (describe_processing_job ''baseline-job'') ''ProcessingJobStatus'' (0 + j))
                = Inr ''InProgress'')
      \<and> outcome (read_status polls_end_in_failure (describe_processing_job ''baseline-job'')
                   ''ProcessingJobStatus'' (0 + 2)) = Inr ''Failed''
      \<and> ''Failed'' \<noteq> ''InProgress''"
    by (simp add: read_status_def seq_def send_def lookup_def polls_end_in_failure_def)
  have schedule_cell:
    "outcome (monitoring_schedule_cell polls_end_in_failure MODEL_MONITOR_SCHEDULE_NAME
                MODEL_ENDPOINT m) = Inr ()
     \<and> calls (trace (monitoring_schedule_cell polls_end_in_failure MODEL_MONITOR_SCHEDULE_NAME
                        MODEL_ENDPOINT m))
         = [baseline_statistics, suggested_constraints,
            create_monitoring_schedule MODEL_MONITOR_SCHEDULE_NAME MODEL_ENDPOINT,
            describe_schedule]" for m
    by (simp add: monitoring_schedule_cell_def seq_def send_def sleep_def lookup_def print_def
          polls_end_in_failure_def)
  from any_other_status_ends_poll_normally
         [where k = 2 and srv = polls_end_in_failure and n = 0 and status = "''Failed''"
            and job_name = "''baseline-job''"
            and monitor_schedule_name = MODEL_MONITOR_SCHEDULE_NAME and endpoint = MODEL_ENDPOINT,
          THEN conjunct2, rule_format, OF h']
  obtain evs' where
    "wait_processing_job polls_end_in_failure ''baseline-job'' 0
       = Some (Inr ''Failed'', 0 + Suc 2, evs')"
    and "calls evs' = replicate (Suc 2) (describe_processing_job ''baseline-job'')"
    and "baseline_then_schedule polls_end_in_failure ''baseline-job''
           MODEL_MONITOR_SCHEDULE_NAME MODEL_ENDPOINT 0
           = Some (outcome (monitoring_schedule_cell polls_end_in_failure
                              MODEL_MONITOR_SCHEDULE_NAME MODEL_ENDPOINT (0 + Suc 2)),
                   sent (monitoring_schedule_cell polls_end_in_failure
                           MODEL_MONITOR_SCHEDULE_NAME MODEL_ENDPOINT (0 + Suc 2)),
                   evs' @ trace (monitoring_schedule_cell polls_end_in_failure
                                   MODEL_MONITOR_SCHEDULE_NAME MODEL_ENDPOINT (0 + Suc 2)))"
    by blast
  then have job:
    "map_option outcome (wait_processing_job polls_end_in_failure ''baseline-job'' 0)
       = Some (Inr ''Failed'')
     \<and> map_option outcome
           (baseline_then_schedule polls_end_in_failure ''baseline-job''
              MODEL_MONITOR_SCHEDULE_NAME MODEL_ENDPOINT 0)
         = Some (Inr ())
     \<and> map_option (calls \<circ> trace)
           (baseline_then_schedule polls_end_in_failure ''baseline-job''
              MODEL_MONITOR_SCHEDULE_NAME MODEL_ENDPOINT 0)
         = Some [describe_processing_job ''baseline-job'', describe_processing_job ''baseline-job'',
                 describe_processing_job ''baseline-job'', baseline_statistics,
                 suggested_constraints,
                 create_monitoring_schedule MODEL_MONITOR_SCHEDULE_NAME MODEL_ENDPOINT,
                 describe_schedule]"
    by (simp add: schedule_cell calls_append numeral_3_eq_3)
  show ?thesis using endpoint job by blast
qed

end
